theory Spec2Isabelle
  imports Complex_Main
begin

section \<open>Errors\<close>

text \<open>
  Every way in which the Python code leaves a function without a value is a constructor.
  \<open>utils.logging.error\<close> is not among the sources; it is called where the run cannot
  continue (\<open>create_vector\<close> has no \<open>return\<close> after it), and the two calls modelled
  here are named after the failure they report.  \<open>SingularMatrix\<close> stands for the
  \<open>RuntimeError\<close> that \<open>Tensor.inverse\<close> raises on a singular matrix, \<open>ShapeError\<close>
  for the \<open>RuntimeError\<close>/\<open>IndexError\<close> of a \<open>view\<close> or a masked index whose shape
  does not fit, \<open>KernelSizeError\<close> for the \<open>RuntimeError\<close> of \<open>conv2d\<close> on an image that
  is, with its padding, smaller than the kernel.
\<close>

datatype error =
    ConfigurationError
  | ShapeMismatchError
  | ShapeError
  | IndexError
  | NameError string
  | TypeError
  | KernelSizeError
  | SingularMatrix

section \<open>Vector primitives (\<open>utils.vectors\<close>)\<close>

text \<open>
  Numbers are exact reals: rounding and overflow of the 32-bit floats are not modelled.
  A 3-vector is the last axis of a tensor of shape \<open>\<dots> \<times> 3\<close>.
\<close>

datatype vec3 = Vec3 real real real

instantiation vec3 :: ab_group_add
begin

fun plus_vec3 :: "vec3 \<Rightarrow> vec3 \<Rightarrow> vec3" where
  "plus_vec3 (Vec3 a b c) (Vec3 x y z) = Vec3 (a + x) (b + y) (c + z)"

fun minus_vec3 :: "vec3 \<Rightarrow> vec3 \<Rightarrow> vec3" where
  "minus_vec3 (Vec3 a b c) (Vec3 x y z) = Vec3 (a - x) (b - y) (c - z)"

fun uminus_vec3 :: "vec3 \<Rightarrow> vec3" where
  "uminus_vec3 (Vec3 a b c) = Vec3 (- a) (- b) (- c)"

definition zero_vec3 :: vec3 where
  "zero_vec3 = Vec3 0 0 0"

instance
proof
  fix a b c :: vec3
  show "a + b + c = a + (b + c)"
    by (cases a; cases b; cases c) simp
  show "a + b = b + a"
    by (cases a; cases b) simp
  show "0 + a = a"
    by (cases a) (simp add: zero_vec3_def)
  show "- a + a = 0"
    by (cases a) (simp add: zero_vec3_def)
  show "a - b = a + - b"
    by (cases a; cases b) simp
qed

end

fun scale3 :: "real \<Rightarrow> vec3 \<Rightarrow> vec3" where
  "scale3 k (Vec3 x y z) = Vec3 (k * x) (k * y) (k * z)"

text \<open>
  Modelled from the spec: \<open>utils.vectors\<close> is not among the sources.  The spec lists
  \<open>normalize\<close>, inner and cross product as leaf utilities; \<open>norm\<close> is the Euclidean
  length.  \<open>implied_normal_image\<close> tests \<open>norm(\<dots>) == 0\<close> on normalised vectors and
  convolves them, so the zero vector is normalised to itself.
\<close>

fun inner_product :: "vec3 \<Rightarrow> vec3 \<Rightarrow> real" where
  "inner_product (Vec3 a b c) (Vec3 x y z) = a * x + b * y + c * z"

fun cross_product :: "vec3 \<Rightarrow> vec3 \<Rightarrow> vec3" where
  "cross_product (Vec3 a b c) (Vec3 x y z) = Vec3 (b * z - c * y) (c * x - a * z) (a * y - b * x)"

text \<open>\<open>norm\<close> and \<open>normalize\<close>, named apart from the constants of the library.\<close>

definition norm3 :: "vec3 \<Rightarrow> real" where
  "norm3 v = sqrt (inner_product v v)"

definition normalize3 :: "vec3 \<Rightarrow> vec3" where
  "normalize3 v = (if norm3 v = 0 then 0 else scale3 (1 / norm3 v) v)"

section \<open>Grids and masked indexing\<close>

text \<open>
  A tensor of shape \<open>H \<times> W \<times> \<dots>\<close> is the list of its \<open>H\<close> rows of \<open>W\<close> cells.  A tensor
  is rectangular, so its shape is read off its first row.
\<close>

type_synonym 'a grid = "'a list list"

definition shape :: "'a grid \<Rightarrow> nat \<times> nat" where
  "shape g = (length g, (case g of [] \<Rightarrow> 0 | r # _ \<Rightarrow> length r))"

text \<open>\<open>mask.sum()\<close>: the number of true cells.\<close>

definition count_true :: "bool list \<Rightarrow> nat" where
  "count_true bs = length (filter id bs)"

definition mask_sum :: "bool grid \<Rightarrow> nat" where
  "mask_sum m = sum_list (map count_true m)"

text \<open>\<open>x[mask]\<close> on one row, and on a grid in row-major order.\<close>

fun gather_row :: "'a list \<Rightarrow> bool list \<Rightarrow> 'a list" where
  "gather_row (x # xs) (b # bs) = (if b then x # gather_row xs bs else gather_row xs bs)"
| "gather_row _ _ = []"

fun gather_rows :: "'a grid \<Rightarrow> bool grid \<Rightarrow> 'a list" where
  "gather_rows (r # rs) (m # ms) = gather_row r m @ gather_rows rs ms"
| "gather_rows _ _ = []"

definition masked_index :: "'a grid \<Rightarrow> bool grid \<Rightarrow> error + 'a list" where
  "masked_index x m =
     (if map length x = map length m then Inr (gather_rows x m) else Inl IndexError)"

text \<open>
  \<open>x[mask] = values\<close>: the values go to the true cells in row-major order; a single
  value is broadcast to all of them.
\<close>

fun scatter_row :: "'a list \<Rightarrow> bool list \<Rightarrow> 'a list \<Rightarrow> 'a list" where
  "scatter_row (x # xs) (b # bs) vs =
     (if b then (case vs of [] \<Rightarrow> x # scatter_row xs bs [] | v # vs' \<Rightarrow> v # scatter_row xs bs vs')
      else x # scatter_row xs bs vs)"
| "scatter_row xs _ _ = xs"

fun scatter_rows :: "'a grid \<Rightarrow> bool grid \<Rightarrow> 'a list \<Rightarrow> 'a grid" where
  "scatter_rows (r # rs) (m # ms) vs =
     scatter_row r m (take (count_true m) vs) # scatter_rows rs ms (drop (count_true m) vs)"
| "scatter_rows rs _ _ = rs"

definition masked_assign :: "'a grid \<Rightarrow> bool grid \<Rightarrow> 'a list \<Rightarrow> error + 'a grid" where
  "masked_assign x m vs =
     (if map length x \<noteq> map length m then Inl IndexError
      else if length vs = mask_sum m then Inr (scatter_rows x m vs)
      else if length vs = 1 then Inr (scatter_rows x m (replicate (mask_sum m) (hd vs)))
      else Inl ShapeError)"

text \<open>
  \<open>t.view(H, W)\<close> of a two-dimensional tensor: same cells, new shape.  \<open>view\<close> raises
  when the strides of the tensor do not fit the new shape.  The memory layout is not
  modelled: a tensor that is viewed carries, beside its cells, the shapes that its
  strides admit.  A contiguous tensor admits every shape.
\<close>

record 'a tensor =
  cells :: "'a grid"
  admits :: "nat \<times> nat \<Rightarrow> bool"

definition contiguous :: "'a grid \<Rightarrow> 'a tensor" where
  "contiguous g = \<lparr>cells = g, admits = (\<lambda>s. True)\<rparr>"

fun rows_of :: "nat \<Rightarrow> nat \<Rightarrow> 'a list \<Rightarrow> 'a grid" where
  "rows_of 0 w xs = []"
| "rows_of (Suc h) w xs = take w xs # rows_of h w (drop w xs)"

definition view :: "'a tensor \<Rightarrow> nat \<times> nat \<Rightarrow> error + 'a grid" where
  "view t s =
     (if length (concat (cells t)) = fst s * snd s \<and> admits t s
      then Inr (rows_of (fst s) (snd s) (concat (cells t)))
      else Inl ShapeError)"

section \<open>Calibration and unprojection\<close>

type_synonym mat3 = "vec3 \<times> vec3 \<times> vec3"

text \<open>The rows of a matrix applied to a column vector.\<close>

fun mat_vec :: "mat3 \<Rightarrow> vec3 \<Rightarrow> vec3" where
  "mat_vec (r1, r2, r3) v = Vec3 (inner_product r1 v) (inner_product r2 v) (inner_product r3 v)"

text \<open>\<open>invRt[:3,:3]\<close> and \<open>invRt[:3,3:]\<close>: the rotation and the camera location.\<close>

record pose =
  rot :: mat3
  camloc :: vec3

text \<open>
  Modelled from the spec: \<open>utils.depth_maps.depth_map_to_locations\<close> is not among the
  sources.  The spec has the depth-map variant unproject each pixel's depth through
  \<open>(invK, invRt)\<close>: the pixel \<open>(x, y, 1)\<close> (\<open>x\<close> the column, as in the rays of
  \<open>PlaneParametrization.initialize\<close>) is taken to the camera frame by \<open>invK\<close>, scaled by
  the depth and moved to the world frame by \<open>invRt\<close>.  The result has the shape of the
  depth map.
\<close>

definition unproject :: "mat3 \<Rightarrow> pose \<Rightarrow> real \<Rightarrow> nat \<Rightarrow> nat \<Rightarrow> vec3" where
  "unproject invK invRt d i j =
     mat_vec (rot invRt) (scale3 d (mat_vec invK (Vec3 (real j) (real i) 1))) + camloc invRt"

definition depth_map_to_locations :: "real grid \<Rightarrow> mat3 \<Rightarrow> pose \<Rightarrow> vec3 grid" where
  "depth_map_to_locations depth invK invRt =
     map (\<lambda>i. map (\<lambda>j. unproject invK invRt (depth ! i ! j) i j) [0..<snd (shape depth)])
       [0..<fst (shape depth)]"

section \<open>\<open>DepthMapParametrization\<close>\<close>

record DepthMapParametrization =
  depth :: "real grid"
  mask_grid :: "bool grid"
  invK :: mat3
  invRt :: pose
  point_count :: nat

text \<open>\<open>DepthMapParametrization.initialize\<close>: the mask is viewed in the shape of the depth.\<close>

definition initialize ::
  "real grid \<Rightarrow> bool tensor \<Rightarrow> mat3 \<Rightarrow> pose \<Rightarrow> error + DepthMapParametrization" where
  "initialize d m K Rt =
     (case view m (shape d) of
        Inl e \<Rightarrow> Inl e
      | Inr m' \<Rightarrow>
          Inr \<lparr>depth = d, mask_grid = m', invK = K, invRt = Rt, point_count = mask_sum m'\<rparr>)"

definition location_vector :: "DepthMapParametrization \<Rightarrow> error + vec3 list" where
  "location_vector p =
     masked_index (depth_map_to_locations (depth p) (invK p) (invRt p)) (mask_grid p)"

definition get_point_count :: "DepthMapParametrization \<Rightarrow> nat" where
  "get_point_count p = point_count p"

text \<open>
  \<open>create_image\<close>: a measurement (a row of \<open>K\<close> numbers) is a value of a type with a
  zero; \<open>filler\<close>, when given, is the cell that replaces the zero.
\<close>

definition create_image ::
  "DepthMapParametrization \<Rightarrow> 'a::zero list \<Rightarrow> 'a option \<Rightarrow> error + 'a grid" where
  "create_image p measurements filler =
     (let image = map (\<lambda>r. map (\<lambda>_. (case filler of None \<Rightarrow> 0 | Some f \<Rightarrow> f)) r) (mask_grid p)
      in masked_assign image (mask_grid p) measurements)"

definition create_vector :: "DepthMapParametrization \<Rightarrow> 'a grid \<Rightarrow> error + 'a list" where
  "create_vector p measurement_image =
     (if shape measurement_image = shape (mask_grid p) then masked_index measurement_image (mask_grid p)
      else if fst (shape (mask_grid p)) = fst (shape measurement_image) + 1
            \<and> snd (shape (mask_grid p)) = snd (shape measurement_image) + 1
      then masked_index measurement_image (map butlast (butlast (mask_grid p)))
      else Inl ShapeMismatchError)"

section \<open>\<open>LocationParametrization.implied_normal_image\<close>\<close>

text \<open>A tensor given cell by cell.\<close>

definition grid_of :: "nat \<Rightarrow> nat \<Rightarrow> (nat \<Rightarrow> nat \<Rightarrow> 'a) \<Rightarrow> 'a grid" where
  "grid_of h w f = map (\<lambda>i. map (\<lambda>j. f i j) [0..<w]) [0..<h]"

text \<open>
  Lines 54 to 56: \<open>down\<close>, \<open>right\<close> and their normalised cross product on the
  \<open>(H-1) \<times> (W-1)\<close> pixels that have a neighbour below and to the right.
\<close>

definition down_vector :: "vec3 grid \<Rightarrow> nat \<Rightarrow> nat \<Rightarrow> vec3" where
  "down_vector L i j = normalize3 (L ! i ! j - L ! (i + 1) ! j)"

definition right_vector :: "vec3 grid \<Rightarrow> nat \<Rightarrow> nat \<Rightarrow> vec3" where
  "right_vector L i j = normalize3 (L ! i ! j - L ! i ! (j + 1))"

definition finite_difference_normal :: "vec3 grid \<Rightarrow> nat \<Rightarrow> nat \<Rightarrow> vec3" where
  "finite_difference_normal L i j =
     normalize3 (cross_product (down_vector L i j) (right_vector L i j))"

text \<open>
  Lines 57 to 63: \<open>reorientations = inner_product(normal, camloc - location).sign()\<close>,
  and the normal is multiplied by it.
\<close>

definition reorientation :: "vec3 \<Rightarrow> vec3 grid \<Rightarrow> nat \<Rightarrow> nat \<Rightarrow> real" where
  "reorientation c L i j = sgn (inner_product (finite_difference_normal L i j) (c - L ! i ! j))"

definition oriented_normal :: "vec3 \<Rightarrow> vec3 grid \<Rightarrow> nat \<Rightarrow> nat \<Rightarrow> vec3" where
  "oriented_normal c L i j = scale3 (reorientation c L i j) (finite_difference_normal L i j)"

text \<open>
  Lines 65 to 69: \<open>conv2d\<close> with a \<open>5 \<times> 5\<close> kernel of ones and \<open>padding=2\<close> sums the
  window around a pixel, cells beyond the image counting as zero; the sum is normalised.
\<close>

definition window_sum :: "nat \<Rightarrow> nat \<Rightarrow> (nat \<Rightarrow> nat \<Rightarrow> vec3) \<Rightarrow> nat \<Rightarrow> nat \<Rightarrow> vec3" where
  "window_sum h w n i j =
     sum_list (concat (map (\<lambda>a. map (\<lambda>b.
        if 2 \<le> i + a \<and> i + a - 2 < h \<and> 2 \<le> j + b \<and> j + b - 2 < w
        then n (i + a - 2) (j + b - 2) else 0) [0..<5]) [0..<5]))"

definition local_normal_mean :: "nat \<Rightarrow> nat \<Rightarrow> (nat \<Rightarrow> nat \<Rightarrow> vec3) \<Rightarrow> nat \<Rightarrow> nat \<Rightarrow> vec3" where
  "local_normal_mean h w n i j = normalize3 (window_sum h w n i j)"

text \<open>
  Lines 71 to 73: a masked pixel whose normal is zero, or whose lower or right neighbour
  is outside the mask, takes the local mean.
\<close>

definition replacement_mask1 :: "bool grid \<Rightarrow> (nat \<Rightarrow> nat \<Rightarrow> vec3) \<Rightarrow> nat \<Rightarrow> nat \<Rightarrow> bool" where
  "replacement_mask1 m n i j =
     (m ! i ! j \<and> (norm3 (n i j) = 0 \<or> \<not> m ! (i + 1) ! j \<or> \<not> m ! i ! (j + 1)))"

definition repaired_normal ::
  "bool grid \<Rightarrow> nat \<Rightarrow> nat \<Rightarrow> (nat \<Rightarrow> nat \<Rightarrow> vec3) \<Rightarrow> nat \<Rightarrow> nat \<Rightarrow> vec3" where
  "repaired_normal m h w n i j =
     (if replacement_mask1 m n i j then local_normal_mean h w n i j else n i j)"

text \<open>
  Lines 76 to 81: a masked pixel that is still zero takes the normalised sum of all
  local means.
\<close>

definition mean_normal :: "nat \<Rightarrow> nat \<Rightarrow> (nat \<Rightarrow> nat \<Rightarrow> vec3) \<Rightarrow> vec3" where
  "mean_normal h w n = normalize3 (sum_list (concat (grid_of h w (local_normal_mean h w n))))"

definition filled_normal ::
  "bool grid \<Rightarrow> nat \<Rightarrow> nat \<Rightarrow> (nat \<Rightarrow> nat \<Rightarrow> vec3) \<Rightarrow> nat \<Rightarrow> nat \<Rightarrow> vec3" where
  "filled_normal m h w n i j =
     (if norm3 (repaired_normal m h w n i j) = 0 \<and> m ! i ! j then mean_normal h w n
      else repaired_normal m h w n i j)"

text \<open>Lines 82 to 97: a row of zeros below, then a column of zeros to the right.\<close>

definition zero_pad :: "nat \<Rightarrow> vec3 grid \<Rightarrow> vec3 grid" where
  "zero_pad w g = map (\<lambda>r. r @ [0]) (g @ [replicate w 0])"

definition normal_image_of :: "bool grid \<Rightarrow> vec3 \<Rightarrow> vec3 grid \<Rightarrow> vec3 grid" where
  "normal_image_of m c L =
     (let h = fst (shape L) - 1; w = snd (shape L) - 1
      in zero_pad w (grid_of h w (filled_normal m h w (oriented_normal c L))))"

text \<open>
  \<open>mask[-1,:]\<close> and \<open>mask[:,-1]\<close> raise on a tensor with no row or no column; the call of
  \<open>error\<close> on line 53 is the failure the spec calls ConfigurationError.  On an image
  with one row or one column the \<open>(H-1) \<times> (W-1)\<close> normals are empty, and \<open>conv2d\<close> on
  line 65 raises: padded by 2 they are smaller than the \<open>5 \<times> 5\<close> kernel.
\<close>

definition touches_border :: "bool grid \<Rightarrow> bool" where
  "touches_border m = (0 < count_true (last m) + count_true (map last m))"

definition implied_normal_image :: "DepthMapParametrization \<Rightarrow> error + vec3 grid" where
  "implied_normal_image p =
     (case location_vector p of
        Inl e \<Rightarrow> Inl e
      | Inr v \<Rightarrow>
         (case create_image p v None of
            Inl e \<Rightarrow> Inl e
          | Inr location_image \<Rightarrow>
              if fst (shape (mask_grid p)) = 0 \<or> snd (shape (mask_grid p)) = 0 then Inl IndexError
              else if touches_border (mask_grid p) then Inl ConfigurationError
              else if fst (shape (mask_grid p)) = 1 \<or> snd (shape (mask_grid p)) = 1
              then Inl KernelSizeError
              else Inr (normal_image_of (mask_grid p) (camloc (invRt p)) location_image)))"

section \<open>\<open>PlaneParametrization.initialize\<close>\<close>

text \<open>
  What a name of the function body is bound to.  The parameters and \<open>world_points\<close> are
  the locals when line 190 is reached; the module binds its imports and its classes.
  None of them is called \<open>H\<close> or \<open>W\<close>, and Python has no such builtins.
\<close>

datatype pyval = PyInt nat | PyObject

definition initialize_locals :: "(string \<times> pyval) list" where
  "initialize_locals =
     [(''self'', PyObject), (''depth'', PyObject), (''mask'', PyObject), (''invK'', PyObject),
      (''invRt'', PyObject), (''world_points'', PyObject)]"

definition module_globals :: "(string \<times> pyval) list" where
  "module_globals =
     [(''ABC'', PyObject), (''abstractmethod'', PyObject), (''torch'', PyObject),
      (''Parametrization'', PyObject), (''depth_map_to_locations'', PyObject),
      (''error'', PyObject), (''inner_product'', PyObject), (''cross_product'', PyObject),
      (''normalize'', PyObject), (''norm'', PyObject), (''lru_cache'', PyObject),
      (''LocationParametrization'', PyObject), (''DepthMapParametrization'', PyObject),
      (''PlaneParametrization'', PyObject), (''LocationParametrizationFactory'', PyObject)]"

definition lookup_name :: "string \<Rightarrow> error + pyval" where
  "lookup_name n =
     (case map_of (initialize_locals @ module_globals) n of
        None \<Rightarrow> Inl (NameError n)
      | Some v \<Rightarrow> Inr v)"

text \<open>\<open>torch.arange(0, n)\<close> wants a number.\<close>

definition as_size :: "string \<Rightarrow> error + nat" where
  "as_size n =
     (case lookup_name n of
        Inl e \<Rightarrow> Inl e
      | Inr (PyInt k) \<Rightarrow> Inr k
      | Inr PyObject \<Rightarrow> Inl TypeError)"

record PlaneParametrization =
  plane_invK :: mat3
  plane_invRt :: pose
  plane_mask :: "bool grid"
  p_plane :: vec3
  camera_rays :: "vec3 list"
  plane_point_count :: nat

text \<open>
  \<open>world_points.pinverse().sum(dim=1)\<close> is a function of the library, taken as the
  parameter \<open>pinverse_sum\<close>.  Line 190 evaluates \<open>W\<close> before \<open>H\<close>.
\<close>

definition PlaneParametrization_initialize ::
  "(vec3 list \<Rightarrow> vec3) \<Rightarrow> real grid \<Rightarrow> bool tensor \<Rightarrow> mat3 \<Rightarrow> pose
     \<Rightarrow> error + PlaneParametrization" where
  "PlaneParametrization_initialize pinverse_sum d m K Rt =
     (case view m (shape d) of
        Inl e \<Rightarrow> Inl e
      | Inr m' \<Rightarrow>
         (case masked_index (depth_map_to_locations d K Rt) (cells m) of
            Inl e \<Rightarrow> Inl e
          | Inr world_points \<Rightarrow>
             (case as_size ''W'' of
                Inl e \<Rightarrow> Inl e
              | Inr W \<Rightarrow>
                 (case as_size ''H'' of
                    Inl e \<Rightarrow> Inl e
                  | Inr H \<Rightarrow>
                     (case masked_index
                             (grid_of H W (\<lambda>i j.
                                mat_vec K (mat_vec (rot Rt) (Vec3 (real j) (real i) 1)))) m' of
                        Inl e \<Rightarrow> Inl e
                      | Inr rays \<Rightarrow>
                          Inr \<lparr>plane_invK = K, plane_invRt = Rt, plane_mask = m',
                               p_plane = pinverse_sum world_points, camera_rays = rays,
                               plane_point_count = mask_sum m'\<rparr>)))))"

section \<open>\<open>closed_form_lambertian_solution\<close>: the data\<close>

text \<open>
  What the light model and the observation extractor deliver for one point and one view:
  the light intensity per colour channel, the light direction, the shadow flag, the
  occlusion flag and the observed radiance per colour channel.
\<close>

record view_data =
  light_intensity :: vec3
  light_direction :: vec3
  shadow :: bool
  occlusion :: bool
  observation :: vec3

fun channel :: "vec3 \<Rightarrow> nat \<Rightarrow> real" where
  "channel (Vec3 r g b) c = (if c = 0 then r else if c = 1 then g else b)"

text \<open>
  Line 73: \<open>(batch_occlusions + (batch_observations[...,1] == OBSERVATION_OUT_OF_BOUNDS)) > 0\<close>.
  The sentinel of \<open>utils.sentinels\<close> is not among the sources and is the parameter
  \<open>oob\<close>.
\<close>

definition mark_out_of_bounds :: "real \<Rightarrow> view_data \<Rightarrow> view_data" where
  "mark_out_of_bounds oob v = v\<lparr>occlusion := (occlusion v \<or> channel (observation v) 1 = oob)\<rparr>"

text \<open>
  Lines 77 to 81: the batches, each of shape points \<open>\<times>\<close> views of the batch, are
  concatenated along the view axis.  \<open>torch.cat\<close> raises on an empty list and on
  batches with different numbers of points.
\<close>

fun cat_views :: "view_data grid list \<Rightarrow> error + view_data grid" where
  "cat_views [] = Inl ShapeError"
| "cat_views [b] = Inr b"
| "cat_views (b # bs) =
     (case cat_views bs of
        Inl e \<Rightarrow> Inl e
      | Inr rest \<Rightarrow> if length b = length rest then Inr (map2 (@) b rest) else Inl ShapeError)"

definition collect_views :: "real \<Rightarrow> view_data grid list \<Rightarrow> error + view_data grid" where
  "collect_views oob batches = cat_views (map (map (map (mark_out_of_bounds oob))) batches)"

text \<open>
  Lines 83 to 89 and 95 to 96, for one point and one view.  Over the reals a value times
  the zero mask is zero; in the floats of the program a non-finite value times zero is
  not a number.
\<close>

definition incident_light :: "view_data \<Rightarrow> nat \<Rightarrow> vec3" where
  "incident_light v c = scale3 (channel (light_intensity v) c) (light_direction v)"

definition shadowing_mask :: "view_data \<Rightarrow> real" where
  "shadowing_mask v = of_bool (\<not> shadow v)"

definition occlusion_mask :: "view_data \<Rightarrow> real" where
  "occlusion_mask v = of_bool (\<not> occlusion v)"

definition valid_mask :: "view_data \<Rightarrow> real" where
  "valid_mask v = shadowing_mask v * occlusion_mask v"

definition gray_light_intensities :: "view_data \<Rightarrow> vec3" where
  "gray_light_intensities v =
     scale3 (valid_mask v)
       (scale3 (1 / 3) (incident_light v 0 + incident_light v 1 + incident_light v 2))"

definition gray_observations :: "view_data \<Rightarrow> real" where
  "gray_observations v =
     (channel (observation v) 0 + channel (observation v) 1 + channel (observation v) 2) / 3
       * valid_mask v"

section \<open>Small linear systems\<close>

fun mat_add :: "mat3 \<Rightarrow> mat3 \<Rightarrow> mat3" where
  "mat_add (a1, a2, a3) (b1, b2, b3) = (a1 + b1, a2 + b2, a3 + b3)"

fun mat_scale :: "real \<Rightarrow> mat3 \<Rightarrow> mat3" where
  "mat_scale k (a1, a2, a3) = (scale3 k a1, scale3 k a2, scale3 k a3)"

definition eye3 :: mat3 where
  "eye3 = (Vec3 1 0 0, Vec3 0 1 0, Vec3 0 0 1)"

fun outer :: "vec3 \<Rightarrow> vec3 \<Rightarrow> mat3" where
  "outer (Vec3 a b c) v = (scale3 a v, scale3 b v, scale3 c v)"

text \<open>\<open>A.transpose(1,2) @ A\<close> for the matrix \<open>A\<close> whose rows are the given vectors.\<close>

definition gram :: "vec3 list \<Rightarrow> mat3" where
  "gram A = foldr (\<lambda>a M. mat_add (outer a a) M) A (0, 0, 0)"

fun det3 :: "mat3 \<Rightarrow> real" where
  "det3 (Vec3 a b c, Vec3 d e f, Vec3 g h i) =
     a * (e * i - f * h) - b * (d * i - f * g) + c * (d * h - e * g)"

fun adjugate :: "mat3 \<Rightarrow> mat3" where
  "adjugate (Vec3 a b c, Vec3 d e f, Vec3 g h i) =
     (Vec3 (e * i - f * h) (c * h - b * i) (b * f - c * e),
      Vec3 (f * g - d * i) (a * i - c * g) (c * d - a * f),
      Vec3 (d * h - e * g) (b * g - a * h) (a * e - b * d))"

text \<open>\<open>.inverse()\<close> of a \<open>3 \<times> 3\<close> and of a \<open>1 \<times> 1\<close> matrix.\<close>

definition inverse3 :: "mat3 \<Rightarrow> error + mat3" where
  "inverse3 M = (if det3 M = 0 then Inl SingularMatrix else Inr (mat_scale (1 / det3 M) (adjugate M)))"

definition inverse1 :: "real \<Rightarrow> error + real" where
  "inverse1 x = (if x = 0 then Inl SingularMatrix else Inr (1 / x))"

text \<open>
  \<open>(A\<^sup>T A + R).inverse() @ A\<^sup>T @ b\<close>: the pseudo-inverse has one column per row of
  \<open>A\<close>, and the solution is the sum of the columns weighted by \<open>b\<close>.
\<close>

definition regularized_solve :: "mat3 \<Rightarrow> vec3 list \<Rightarrow> real list \<Rightarrow> error + vec3" where
  "regularized_solve R A b =
     (case inverse3 (mat_add (gram A) R) of
        Inl e \<Rightarrow> Inl e
      | Inr Minv \<Rightarrow> Inr (sum_list (map2 (\<lambda>a y. scale3 y (mat_vec Minv a)) A b)))"

section \<open>The RANSAC loop\<close>

definition subset_size :: "nat \<Rightarrow> nat" where
  "subset_size C = min C 6"

definition threshold :: real where
  "threshold = 10000"

definition estimated_outlier_ratio :: real where
  "estimated_outlier_ratio = 0.20"

definition targeted_success_chance :: real where
  "targeted_success_chance = 1 - 1 / 10000"

text \<open>Line 91: \<open>eye = torch.eye(3) * 1e8\<close>.\<close>

definition eye :: mat3 where
  "eye = mat_scale 100000000 eye3"

text \<open>Line 107.\<close>

definition nr_its :: "nat \<Rightarrow> real" where
  "nr_its C =
     (if subset_size C < C
      then 10 * ln (1 - targeted_success_chance)
             / ln (1 - (1 - estimated_outlier_ratio) ^ subset_size C)
      else 1)"

text \<open>\<open>int(x)\<close> truncates towards zero; \<open>range(n)\<close> is empty for a negative \<open>n\<close>.\<close>

definition int_of_float :: "real \<Rightarrow> int" where
  "int_of_float x = (if 0 \<le> x then \<lfloor>x\<rfloor> else \<lceil>x\<rceil>)"

definition ransac_range :: "nat \<Rightarrow> nat list" where
  "ransac_range C = [0..<nat (int_of_float (nr_its C))]"

text \<open>The state of one point: lines 108 and 109.\<close>

record ransac_state =
  best_inlier_counts :: real
  best_inliers :: "real list"

definition initial_state :: "nat \<Rightarrow> ransac_state" where
  "initial_state C = \<lparr>best_inlier_counts = 0 - 1, best_inliers = replicate C 0\<rparr>"

text \<open>\<open>index_select(dim=1, index=subset)\<close>.\<close>

definition index_select :: "'a list \<Rightarrow> nat list \<Rightarrow> error + 'a list" where
  "index_select xs idx =
     (if list_all (\<lambda>i. i < length xs) idx then Inr (map (\<lambda>i. xs ! i) idx)
      else Inl IndexError)"

text \<open>Lines 119 and 137: \<open>(valid.sum(dim=1) <= 2).float()\<close>.\<close>

definition invalids_of :: "real list \<Rightarrow> real" where
  "invalids_of valid = of_bool (sum_list valid \<le> 2)"

text \<open>Lines 123 to 125, for one point: the residuals over all views and the inliers.\<close>

definition inliers_of :: "view_data list \<Rightarrow> vec3 \<Rightarrow> real list" where
  "inliers_of views solution =
     map (\<lambda>v. of_bool (\<bar>inner_product (gray_light_intensities v) solution - gray_observations v\<bar>
                         < threshold) * valid_mask v) views"

text \<open>Lines 126 to 129.\<close>

definition keep_best :: "real list \<Rightarrow> ransac_state \<Rightarrow> ransac_state" where
  "keep_best inliers st =
     (let inlier_counts = sum_list inliers;
          better_subset = of_bool (inlier_counts > best_inlier_counts st)
      in \<lparr>best_inlier_counts =
             best_inlier_counts st * (1 - better_subset) + inlier_counts * better_subset,
           best_inliers =
             map2 (\<lambda>b i. b * (1 - better_subset) + i * better_subset) (best_inliers st) inliers\<rparr>)"

text \<open>Lines 112 to 129: one iteration for one point, with the subset that was drawn.\<close>

definition ransac_iteration ::
  "view_data list \<Rightarrow> nat list \<Rightarrow> ransac_state \<Rightarrow> error + ransac_state" where
  "ransac_iteration views idx st =
     (case index_select views idx of
        Inl e \<Rightarrow> Inl e
      | Inr vs \<Rightarrow>
         (case regularized_solve (mat_scale (invalids_of (map valid_mask vs)) eye)
                 (map gray_light_intensities vs) (map gray_observations vs) of
            Inl e \<Rightarrow> Inl e
          | Inr solution_subset \<Rightarrow> Inr (keep_best (inliers_of views solution_subset) st)))"

fun ransac_loop ::
  "view_data list \<Rightarrow> nat list list \<Rightarrow> ransac_state \<Rightarrow> error + ransac_state" where
  "ransac_loop views [] st = Inr st"
| "ransac_loop views (idx # subsets) st =
     (case ransac_iteration views idx st of
        Inl e \<Rightarrow> Inl e
      | Inr st' \<Rightarrow> ransac_loop views subsets st')"

section \<open>Refit on the best inliers\<close>

record point_result =
  inlier_normals :: vec3
  albedos :: vec3
  inliers :: "real list"
  residuals :: "vec3 list"

text \<open>Line 137.\<close>

definition inlier_invalids :: "view_data list \<Rightarrow> real list \<Rightarrow> real" where
  "inlier_invalids views best = invalids_of (map2 (\<lambda>v b. valid_mask v * b) views best)"

text \<open>Lines 135 to 139.\<close>

definition refit_normal :: "view_data list \<Rightarrow> real list \<Rightarrow> error + vec3" where
  "refit_normal views best =
     (case regularized_solve (mat_scale (inlier_invalids views best) eye)
             (map2 (\<lambda>v b. scale3 b (gray_light_intensities v)) views best)
             (map2 (\<lambda>v b. gray_observations v * b) views best) of
        Inl e \<Rightarrow> Inl e
      | Inr x \<Rightarrow> Inr (normalize3 x))"

text \<open>Lines 143 to 151, for one colour channel \<open>c\<close>.\<close>

definition c_light_intensities :: "vec3 \<Rightarrow> view_data list \<Rightarrow> real list \<Rightarrow> nat \<Rightarrow> real list" where
  "c_light_intensities n views best c =
     map2 (\<lambda>v b. inner_product n (incident_light v c) * (b * valid_mask v)) views best"

definition c_observations :: "view_data list \<Rightarrow> real list \<Rightarrow> nat \<Rightarrow> real list" where
  "c_observations views best c =
     map2 (\<lambda>v b. channel (observation v) c * (b * valid_mask v)) views best"

definition c_albedo :: "vec3 \<Rightarrow> view_data list \<Rightarrow> real list \<Rightarrow> nat \<Rightarrow> error + real" where
  "c_albedo n views best c =
     (let s = c_light_intensities n views best c
      in case inverse1 (sum_list (map (\<lambda>x. x * x) s) + inlier_invalids views best) of
           Inl e \<Rightarrow> Inl e
         | Inr r \<Rightarrow> Inr (sum_list (map2 (\<lambda>x y. r * x * y) s (c_observations views best c))))"

definition c_residuals :: "vec3 \<Rightarrow> view_data list \<Rightarrow> real list \<Rightarrow> nat \<Rightarrow> real \<Rightarrow> real list" where
  "c_residuals n views best c a =
     map2 (\<lambda>x y. x * a - y) (c_light_intensities n views best c) (c_observations views best c)"

text \<open>Lines 134 to 155 for one point.\<close>

definition refit :: "view_data list \<Rightarrow> real list \<Rightarrow> error + point_result" where
  "refit views best =
     (case refit_normal views best of
        Inl e \<Rightarrow> Inl e
      | Inr n \<Rightarrow>
         (case c_albedo n views best 0 of
            Inl e \<Rightarrow> Inl e
          | Inr a0 \<Rightarrow>
             (case c_albedo n views best 1 of
                Inl e \<Rightarrow> Inl e
              | Inr a1 \<Rightarrow>
                 (case c_albedo n views best 2 of
                    Inl e \<Rightarrow> Inl e
                  | Inr a2 \<Rightarrow>
                      Inr \<lparr>inlier_normals = n,
                           albedos = Vec3 (pi * a0) (pi * a1) (pi * a2),
                           inliers = best,
                           residuals =
                             map (\<lambda>(r0, r1, r2). Vec3 r0 r1 r2)
                               (zip (c_residuals n views best 0 a0)
                                 (zip (c_residuals n views best 1 a1)
                                   (c_residuals n views best 2 a2)))\<rparr>))))"

section \<open>The solver\<close>

text \<open>
  One point: the loop over the subsets that were drawn, then the refit.  The draws of
  \<open>np.random.choice\<close> are the input \<open>draw\<close>, one subset per iteration, shared by all
  points.
\<close>

definition closed_form_point :: "view_data list \<Rightarrow> nat list list \<Rightarrow> error + point_result" where
  "closed_form_point views subsets =
     (case ransac_loop views subsets (initial_state (length views)) of
        Inl e \<Rightarrow> Inl e
      | Inr st \<Rightarrow> refit views (best_inliers st))"

fun all_points :: "(error + 'a) list \<Rightarrow> error + 'a list" where
  "all_points [] = Inr []"
| "all_points (Inl e # _) = Inl e"
| "all_points (Inr x # rs) = (case all_points rs of Inl e \<Rightarrow> Inl e | Inr xs \<Rightarrow> Inr (x # xs))"

definition closed_form_lambertian_solution ::
  "real \<Rightarrow> (nat \<Rightarrow> nat list) \<Rightarrow> view_data grid list \<Rightarrow> error + point_result list" where
  "closed_form_lambertian_solution oob draw batches =
     (case collect_views oob batches of
        Inl e \<Rightarrow> Inl e
      | Inr observations \<Rightarrow>
          all_points (map (\<lambda>views.
            closed_form_point views (map draw (ransac_range (snd (shape observations)))))
            observations))"

section \<open>Example parametrizations\<close>

text \<open>
  Unit depth and identity intrinsics throughout: one masked pixel; two masked pixels next
  to an unmasked corner, seen from one unit in front of the image plane; a masked
  \<open>2 \<times> 2\<close> patch of the plane at depth one.
\<close>

definition isolated_pixel :: DepthMapParametrization where
  "isolated_pixel =
     \<lparr>depth = [[1, 1], [1, 1]], mask_grid = [[True, False], [False, False]], invK = eye3,
      invRt = \<lparr>rot = eye3, camloc = 0\<rparr>, point_count = 1\<rparr>"

definition corner_gap :: DepthMapParametrization where
  "corner_gap =
     \<lparr>depth = [[1, 1, 1], [1, 1, 1], [1, 1, 1]],
      mask_grid = [[False, True, False], [True, False, False], [False, False, False]],
      invK = eye3, invRt = \<lparr>rot = eye3, camloc = Vec3 0 0 (- 1)\<rparr>, point_count = 2\<rparr>"

definition flat_patch :: DepthMapParametrization where
  "flat_patch =
     \<lparr>depth = [[1, 1, 1], [1, 1, 1], [1, 1, 1]],
      mask_grid = [[True, True, False], [True, True, False], [False, False, False]],
      invK = eye3, invRt = \<lparr>rot = eye3, camloc = 0\<rparr>, point_count = 4\<rparr>"

definition corner_gap_locations :: "vec3 grid" where
  "corner_gap_locations = [[0, Vec3 1 0 0, 0], [Vec3 0 1 0, 0, 0], [0, 0, 0]]"

definition flat_patch_locations :: "vec3 grid" where
  "flat_patch_locations =
     [[Vec3 0 0 1, Vec3 1 0 1, 0], [Vec3 0 1 1, Vec3 1 1 1, 0], [0, 0, 0]]"

section \<open>Example observations\<close>

text \<open>
  A single unshadowed view under unit light along the first axis with an observed
  radiance of 30000 in every channel; and three views under unit lights along the three
  axes, of a surface that only the third light reaches.
\<close>

definition bright_view :: view_data where
  "bright_view = \<lparr>light_intensity = Vec3 1 1 1, light_direction = Vec3 1 0 0, shadow = False,
     occlusion = False, observation = Vec3 30000 30000 30000\<rparr>"

definition lit_from :: "vec3 \<Rightarrow> real \<Rightarrow> view_data" where
  "lit_from d y = \<lparr>light_intensity = Vec3 1 1 1, light_direction = d, shadow = False,
     occlusion = False, observation = Vec3 y y y\<rparr>"

definition three_lights :: "view_data list" where
  "three_lights = [lit_from (Vec3 1 0 0) 0, lit_from (Vec3 0 1 0) 0, lit_from (Vec3 0 0 1) 2]"

section \<open>Masked scatter and gather\<close>

lemma length_scatter_row: "length (scatter_row r m vs) = length r"
  by (induction r m vs rule: scatter_row.induct) (auto split: list.splits)

lemma map_length_scatter_rows: "map length (scatter_rows x m vs) = map length x"
  by (induction x m vs rule: scatter_rows.induct) (auto simp: length_scatter_row)

lemma gather_scatter_row:
  "length r = length m \<Longrightarrow> length vs = count_true m \<Longrightarrow> gather_row (scatter_row r m vs) m = vs"
proof (induction r arbitrary: m vs)
  case Nil
  then show ?case by (simp add: count_true_def)
next
  case (Cons x xs)
  then show ?case by (cases m; cases vs) (auto simp: count_true_def)
qed

lemma gather_scatter_rows:
  "map length x = map length m \<Longrightarrow> length vs = mask_sum m \<Longrightarrow>
   gather_rows (scatter_rows x m vs) m = vs"
proof (induction x arbitrary: m vs)
  case Nil
  then show ?case by (simp add: mask_sum_def)
next
  case (Cons r rs)
  then obtain b bs where m: "m = b # bs"
    by (cases m) auto
  have a: "length (take (count_true b) vs) = count_true b"
    using Cons.prems m by (simp add: mask_sum_def)
  have c: "length (drop (count_true b) vs) = mask_sum bs"
    using Cons.prems m by (simp add: mask_sum_def)
  have "gather_row (scatter_row r b (take (count_true b) vs)) b = take (count_true b) vs"
    using Cons.prems m a by (intro gather_scatter_row) auto
  moreover have "gather_rows (scatter_rows rs bs (drop (count_true b) vs)) bs
                   = drop (count_true b) vs"
    using Cons.prems m c by (intro Cons.IH) auto
  ultimately show ?case
    using m by simp
qed

lemma length_gather_row: "length r = length m \<Longrightarrow> length (gather_row r m) = count_true m"
  by (induction r m rule: gather_row.induct) (auto simp: count_true_def)

lemma length_gather_rows:
  "map length x = map length m \<Longrightarrow> length (gather_rows x m) = mask_sum m"
  by (induction x m rule: gather_rows.induct) (auto simp: mask_sum_def length_gather_row)

section \<open>Shapes\<close>

lemma shape_cong: "map length a = map length b \<Longrightarrow> shape a = shape b"
  by (cases a; cases b) (auto simp: shape_def dest: map_eq_imp_length_eq)

lemma shape_replicate:
  assumes "map length g = replicate h w" and "0 < h"
  shows "shape g = (h, w)"
proof -
  have "length g = h"
    using assms(1) by (metis length_map length_replicate)
  then show ?thesis
    using assms by (cases g; cases h) (auto simp: shape_def)
qed

lemma map_length_rows_of:
  "length xs = h * w \<Longrightarrow> map length (rows_of h w xs) = replicate h w"
  by (induction h w xs rule: rows_of.induct) auto

lemma map_length_depth_map_to_locations:
  "map length (depth_map_to_locations d K Rt) = replicate (fst (shape d)) (snd (shape d))"
  by (simp add: depth_map_to_locations_def comp_def map_replicate_const)

lemma initialize_shape:
  assumes "initialize d m K Rt = Inr p"
  shows "map length (mask_grid p) = replicate (fst (shape d)) (snd (shape d))"
    and "depth p = d" and "invK p = K" and "invRt p = Rt" and "point_count p = mask_sum (mask_grid p)"
  using assms
  by (auto simp: initialize_def view_def contiguous_def map_length_rows_of split: sum.splits if_splits)

lemma location_image_after_initialize:
  assumes "initialize d m K Rt = Inr p"
  shows "\<exists>v img. location_vector p = Inr v \<and> length v = mask_sum (mask_grid p)
            \<and> create_image p v None = Inr img \<and> create_vector p img = Inr v
            \<and> map length img = map length (mask_grid p)"
proof -
  let ?pts = "depth_map_to_locations (depth p) (invK p) (invRt p)"
  let ?v = "gather_rows ?pts (mask_grid p)"
  let ?z = "map (\<lambda>r. map (\<lambda>_. 0::vec3) r) (mask_grid p)"
  let ?img = "scatter_rows ?z (mask_grid p) ?v"
  have sh: "map length ?pts = map length (mask_grid p)"
    using initialize_shape(1,2) [OF assms] by (simp add: map_length_depth_map_to_locations)
  have lv: "location_vector p = Inr ?v"
    using sh by (simp add: location_vector_def masked_index_def)
  have len: "length ?v = mask_sum (mask_grid p)"
    using sh by (rule length_gather_rows)
  have z: "map length ?z = map length (mask_grid p)"
    by (simp add: comp_def)
  have ci: "create_image p ?v None = Inr ?img"
    using z len by (simp add: create_image_def masked_assign_def)
  have mi: "map length ?img = map length (mask_grid p)"
    using z by (simp only: map_length_scatter_rows)
  have cv: "create_vector p ?img = Inr (gather_rows ?img (mask_grid p))"
    using mi shape_cong [OF mi] by (simp add: create_vector_def masked_index_def)
  have rt: "gather_rows ?img (mask_grid p) = ?v"
    using z len by (rule gather_scatter_rows)
  show ?thesis
    using lv len ci cv rt mi by simp
qed

section \<open>The location vector and its round trip through the image\<close>

text \<open>
  C6.  After \<open>initialize\<close>, \<open>location_vector()\<close> has as many entries as the mask has true
  cells, which is \<open>get_point_count()\<close>, and gathering the image that \<open>create_image\<close>
  scatters it into gives the location vector back.
\<close>

theorem location_vector_round_trip:
  assumes "initialize d m K Rt = Inr p"
  shows "\<exists>v img. location_vector p = Inr v \<and> length v = mask_sum (mask_grid p)
            \<and> length v = get_point_count p
            \<and> create_image p v None = Inr img \<and> create_vector p img = Inr v"
  using location_image_after_initialize [OF assms] initialize_shape(5) [OF assms]
  by (auto simp: get_point_count_def)

theorem location_vector_round_trip_witness:
  "initialize [[1, 2], [3, 4]] (contiguous [[True, False], [False, False]]) eye3 \<lparr>rot = eye3, camloc = 0\<rparr>
     = Inr \<lparr>depth = [[1, 2], [3, 4]], mask_grid = [[True, False], [False, False]], invK = eye3,
            invRt = \<lparr>rot = eye3, camloc = 0\<rparr>, point_count = 1\<rparr>
   \<and> (\<exists>v img.
         location_vector \<lparr>depth = [[1, 2], [3, 4]], mask_grid = [[True, False], [False, False]],
            invK = eye3, invRt = \<lparr>rot = eye3, camloc = 0\<rparr>, point_count = 1\<rparr> = Inr v
       \<and> length v = 1
       \<and> create_image \<lparr>depth = [[1, 2], [3, 4]], mask_grid = [[True, False], [False, False]],
            invK = eye3, invRt = \<lparr>rot = eye3, camloc = 0\<rparr>, point_count = 1\<rparr> v None = Inr img
       \<and> create_vector \<lparr>depth = [[1, 2], [3, 4]], mask_grid = [[True, False], [False, False]],
            invK = eye3, invRt = \<lparr>rot = eye3, camloc = 0\<rparr>, point_count = 1\<rparr> img = Inr v)"
proof -
  have h: "initialize [[1, 2], [3, 4]] (contiguous [[True, False], [False, False]]) eye3
             \<lparr>rot = eye3, camloc = 0\<rparr>
     = Inr \<lparr>depth = [[1, 2], [3, 4]], mask_grid = [[True, False], [False, False]], invK = eye3,
            invRt = \<lparr>rot = eye3, camloc = 0\<rparr>, point_count = 1\<rparr>"
    by (simp add: initialize_def view_def contiguous_def shape_def mask_sum_def count_true_def)
  show ?thesis
    using h location_vector_round_trip [OF h] by (auto simp: get_point_count_def)
qed

section \<open>Where the border of the mask is checked\<close>

text \<open>
  C4, as the claim states it, fails: \<open>initialize\<close> accepts a mask whose only cell, in the
  last row and the last column, is true.
\<close>

theorem initialize_border_mask_counterexample:
  "touches_border [[True]]
   \<and> initialize [[1]] (contiguous [[True]]) eye3 \<lparr>rot = eye3, camloc = 0\<rparr>
       = Inr \<lparr>depth = [[1]], mask_grid = [[True]], invK = eye3,
              invRt = \<lparr>rot = eye3, camloc = 0\<rparr>, point_count = 1\<rparr>"
  by (simp add: touches_border_def initialize_def view_def contiguous_def shape_def mask_sum_def count_true_def)

text \<open>
  C4, amended.  \<open>initialize\<close> does not look at the border of the mask.  The check is made
  by \<open>implied_normal_image()\<close>: on a parametrization that \<open>initialize\<close> returned and whose
  mask has a true cell in its last row or its last column, it fails with the
  ConfigurationError.
\<close>

theorem border_check_in_implied_normal_image:
  assumes "initialize d m K Rt = Inr p" and "0 < fst (shape d)" and "0 < snd (shape d)"
    and "touches_border (mask_grid p)"
  shows "implied_normal_image p = Inl ConfigurationError"
proof -
  obtain v img where "location_vector p = Inr v" and "create_image p v None = Inr img"
    using location_image_after_initialize [OF assms(1)] by blast
  moreover have "shape (mask_grid p) = (fst (shape d), snd (shape d))"
    using initialize_shape(1) [OF assms(1)] assms(2) by (rule shape_replicate)
  ultimately show ?thesis
    using assms(2-4) by (simp add: implied_normal_image_def)
qed

theorem border_check_in_implied_normal_image_witness:
  "initialize [[1]] (contiguous [[True]]) eye3 \<lparr>rot = eye3, camloc = 0\<rparr>
       = Inr \<lparr>depth = [[1]], mask_grid = [[True]], invK = eye3,
              invRt = \<lparr>rot = eye3, camloc = 0\<rparr>, point_count = 1\<rparr>
   \<and> 0 < fst (shape [[1::real]]) \<and> 0 < snd (shape [[1::real]]) \<and> touches_border [[True]]
   \<and> implied_normal_image \<lparr>depth = [[1]], mask_grid = [[True]], invK = eye3,
              invRt = \<lparr>rot = eye3, camloc = 0\<rparr>, point_count = 1\<rparr> = Inl ConfigurationError"
proof -
  have i: "initialize [[1]] (contiguous [[True]]) eye3 \<lparr>rot = eye3, camloc = 0\<rparr>
       = Inr \<lparr>depth = [[1]], mask_grid = [[True]], invK = eye3,
              invRt = \<lparr>rot = eye3, camloc = 0\<rparr>, point_count = 1\<rparr>"
    by (simp add: initialize_def view_def contiguous_def shape_def mask_sum_def count_true_def)
  have h: "0 < fst (shape [[1::real]])" and w: "0 < snd (shape [[1::real]])"
    by (simp_all add: shape_def)
  have b: "touches_border (mask_grid \<lparr>depth = [[1]], mask_grid = [[True]], invK = eye3,
              invRt = \<lparr>rot = eye3, camloc = 0\<rparr>, point_count = 1\<rparr>)"
    by (simp add: touches_border_def count_true_def)
  show ?thesis
    using i h w b border_check_in_implied_normal_image [OF i h w b] by simp
qed

section \<open>The plane variant cannot be initialised\<close>

lemma as_size_W: "as_size ''W'' = Inl (NameError ''W'')"
  by (simp add: as_size_def lookup_name_def initialize_locals_def module_globals_def)

text \<open>
  C10.  \<open>PlaneParametrization.initialize\<close> raises on every input: when the mask fits the
  depth map, line 190 is reached and the name \<open>W\<close> is bound nowhere; otherwise the
  \<open>view\<close> or the masked index has already failed.
\<close>

theorem plane_initialize_raises:
  "\<exists>e. PlaneParametrization_initialize pinverse_sum d m K Rt = Inl e
       \<and> (e = NameError ''W'' \<or> e = ShapeError \<or> e = IndexError)"
  by (auto simp: PlaneParametrization_initialize_def as_size_W view_def masked_index_def
      split: sum.splits)

section \<open>The out-of-bounds sentinel\<close>

lemma set_concat_map2_append:
  "length b = length r \<Longrightarrow> set (concat (map2 (@) b r)) = set (concat b) \<union> set (concat r)"
  by (induction b r rule: list_induct2) auto

lemma cat_views_cells:
  "cat_views bs = Inr g \<Longrightarrow> set (concat g) \<subseteq> (\<Union>b\<in>set bs. set (concat b))"
proof (induction bs arbitrary: g rule: cat_views.induct)
  case 1
  then show ?case by simp
next
  case (2 b)
  then show ?case by simp
next
  case (3 b c bs)
  then obtain rest where r: "cat_views (c # bs) = Inr rest" and l: "length b = length rest"
    and g: "g = map2 (@) b rest"
    by (auto split: sum.splits if_splits)
  have "set (concat rest) \<subseteq> (\<Union>b\<in>set (c # bs). set (concat b))"
    using 3(1) [OF r] .
  moreover have "set (concat g) = set (concat b) \<union> set (concat rest)"
    unfolding g using l by (rule set_concat_map2_append)
  ultimately show ?case
    by (simp del: set_concat) blast
qed

text \<open>
  C9, amended.  The solver looks at the second colour channel only: a view of the
  concatenated observations whose channel 1 equals the sentinel is marked occluded and
  is outside the validity mask.
\<close>

theorem out_of_bounds_green_is_occluded:
  assumes "collect_views oob batches = Inr observations"
    and "views \<in> set observations" and "v \<in> set views"
    and "channel (observation v) 1 = oob"
  shows "occlusion v \<and> occlusion_mask v = 0 \<and> valid_mask v = 0"
proof -
  have "v \<in> set (concat observations)"
    using assms(2,3) by auto
  then obtain b where "b \<in> set (map (map (map (mark_out_of_bounds oob))) batches)"
    and "v \<in> set (concat b)"
    using cat_views_cells [OF assms(1) [unfolded collect_views_def]] by blast
  then obtain u where "v = mark_out_of_bounds oob u"
    by auto
  then have "occlusion v"
    using assms(4) by (simp add: mark_out_of_bounds_def)
  then show ?thesis
    by (simp add: valid_mask_def occlusion_mask_def)
qed

theorem out_of_bounds_green_is_occluded_witness:
  "collect_views (-1) [[[\<lparr>light_intensity = Vec3 1 1 1, light_direction = Vec3 0 0 1,
       shadow = False, occlusion = False, observation = Vec3 0 (-1) 0\<rparr>]]]
     = Inr [[\<lparr>light_intensity = Vec3 1 1 1, light_direction = Vec3 0 0 1,
       shadow = False, occlusion = True, observation = Vec3 0 (-1) 0\<rparr>]]
   \<and> valid_mask \<lparr>light_intensity = Vec3 1 1 1, light_direction = Vec3 0 0 1,
       shadow = False, occlusion = True, observation = Vec3 0 (-1) 0\<rparr> = 0"
proof -
  have h: "collect_views (-1) [[[\<lparr>light_intensity = Vec3 1 1 1, light_direction = Vec3 0 0 1,
       shadow = False, occlusion = False, observation = Vec3 0 (-1) 0\<rparr>]]]
     = Inr [[\<lparr>light_intensity = Vec3 1 1 1, light_direction = Vec3 0 0 1,
       shadow = False, occlusion = True, observation = Vec3 0 (-1) 0\<rparr>]]"
    by (simp add: collect_views_def mark_out_of_bounds_def)
  show ?thesis
    using h out_of_bounds_green_is_occluded [OF h, of
       "[\<lparr>light_intensity = Vec3 1 1 1, light_direction = Vec3 0 0 1,
       shadow = False, occlusion = True, observation = Vec3 0 (-1) 0\<rparr>]"
       "\<lparr>light_intensity = Vec3 1 1 1, light_direction = Vec3 0 0 1,
       shadow = False, occlusion = True, observation = Vec3 0 (-1) 0\<rparr>"]
    by simp
qed

text \<open>
  C9, as the claim states it, fails: with the sentinel in channel 0 only, the view stays
  unoccluded and valid.
\<close>

theorem out_of_bounds_red_counterexample:
  "channel (observation \<lparr>light_intensity = Vec3 1 1 1, light_direction = Vec3 0 0 1,
       shadow = False, occlusion = False, observation = Vec3 (-1) 0 0\<rparr>) 0 = -1
   \<and> collect_views (-1) [[[\<lparr>light_intensity = Vec3 1 1 1, light_direction = Vec3 0 0 1,
       shadow = False, occlusion = False, observation = Vec3 (-1) 0 0\<rparr>]]]
     = Inr [[\<lparr>light_intensity = Vec3 1 1 1, light_direction = Vec3 0 0 1,
       shadow = False, occlusion = False, observation = Vec3 (-1) 0 0\<rparr>]]
   \<and> valid_mask \<lparr>light_intensity = Vec3 1 1 1, light_direction = Vec3 0 0 1,
       shadow = False, occlusion = False, observation = Vec3 (-1) 0 0\<rparr> = 1"
  by (simp add: collect_views_def mark_out_of_bounds_def valid_mask_def occlusion_mask_def
      shadowing_mask_def)

section \<open>Norms, and the cells of the normal image\<close>

lemma inner_product_self_nonneg: "0 \<le> inner_product v v"
  by (cases v) simp

lemma inner_product_scale3: "inner_product (scale3 k v) w = k * inner_product v w"
  by (cases v; cases w) (simp add: algebra_simps)

lemma inner_product_scale3_right: "inner_product v (scale3 k w) = k * inner_product v w"
  by (cases v; cases w) (simp add: algebra_simps)

lemma inner_product_minus_right: "inner_product v (a - b) = - inner_product v (b - a)"
  by (cases v; cases a; cases b) (simp add: algebra_simps)

lemma norm3_zero: "norm3 0 = 0"
  by (simp add: norm3_def zero_vec3_def)

lemma norm3_eq_0_iff: "norm3 v = 0 \<longleftrightarrow> v = 0"
proof (cases v)
  case (Vec3 a b c)
  have "a * a + b * b + c * c = 0 \<longleftrightarrow> a = 0 \<and> b = 0 \<and> c = 0"
    by (smt (verit) mult_eq_0_iff zero_le_square)
  then show ?thesis
    using Vec3 by (simp add: norm3_def zero_vec3_def)
qed

lemma norm3_nonneg: "0 \<le> norm3 v"
  by (simp add: norm3_def inner_product_self_nonneg)

lemma norm3_scale3: "norm3 (scale3 k v) = \<bar>k\<bar> * norm3 v"
proof -
  have "inner_product (scale3 k v) (scale3 k v) = k\<^sup>2 * inner_product v v"
    by (simp add: inner_product_scale3 inner_product_scale3_right power2_eq_square)
  then show ?thesis
    by (simp add: norm3_def real_sqrt_mult)
qed

lemma scale3_zero_right: "scale3 k 0 = 0"
  by (simp add: zero_vec3_def)

lemma scale3_zero_left: "scale3 0 v = 0"
  by (cases v) (simp add: zero_vec3_def)

lemma norm3_normalize: "norm3 (normalize3 v) = (if v = 0 then 0 else 1)"
proof (cases "v = 0")
  case True
  then show ?thesis by (simp add: normalize3_def norm3_zero)
next
  case False
  then have "0 < norm3 v"
    using norm3_nonneg [of v] norm3_eq_0_iff [of v] by linarith
  then show ?thesis
    using False by (simp add: normalize3_def norm3_scale3 norm3_eq_0_iff)
qed

lemma norm3_oriented_normal: "norm3 (oriented_normal c L i j) = 0 \<or> norm3 (oriented_normal c L i j) = 1"
  by (auto simp: oriented_normal_def norm3_scale3 finite_difference_normal_def norm3_normalize
      reorientation_def sgn_real_def)

lemma grid_of_nth: "i < h \<Longrightarrow> j < w \<Longrightarrow> grid_of h w f ! i ! j = f i j"
  by (simp add: grid_of_def)

lemma zero_pad_interior:
  "i < length g \<Longrightarrow> j < length (g ! i) \<Longrightarrow> zero_pad w g ! i ! j = g ! i ! j"
  by (simp add: zero_pad_def nth_append)

lemma zero_pad_last_row:
  "j \<le> w \<Longrightarrow> zero_pad w g ! length g ! j = 0"
  by (simp add: zero_pad_def nth_append)

lemma zero_pad_last_col:
  "i < length g \<Longrightarrow> zero_pad w g ! i ! length (g ! i) = 0"
  by (simp add: zero_pad_def nth_append)

lemma length_grid_of: "length (grid_of h w f) = h" "i < h \<Longrightarrow> length (grid_of h w f ! i) = w"
  by (simp_all add: grid_of_def)

lemma map_length_zero_pad_grid_of: "map length (zero_pad w (grid_of h w f)) = replicate (Suc h) (Suc w)"
  by (simp add: zero_pad_def grid_of_def comp_def map_replicate_const replicate_append_same)

lemma normal_image_of_interior:
  assumes "shape L = (H, W)" and "i + 1 < H" and "j + 1 < W"
  shows "normal_image_of m c L ! i ! j = filled_normal m (H - 1) (W - 1) (oriented_normal c L) i j"
  using assms by (simp add: normal_image_of_def Let_def zero_pad_interior length_grid_of grid_of_nth)

lemma normal_image_of_last_row:
  assumes "shape L = (H, W)" and "0 < H" and "j < W"
  shows "normal_image_of m c L ! (H - 1) ! j = 0"
  using assms zero_pad_last_row [of j "W - 1" "grid_of (H - 1) (W - 1) (filled_normal m (H - 1) (W - 1) (oriented_normal c L))"]
  by (simp add: normal_image_of_def Let_def length_grid_of)

lemma normal_image_of_last_col:
  assumes "shape L = (H, W)" and "i + 1 < H" and "0 < W"
  shows "normal_image_of m c L ! i ! (W - 1) = 0"
  using assms zero_pad_last_col [of i "grid_of (H - 1) (W - 1) (filled_normal m (H - 1) (W - 1) (oriented_normal c L))" "W - 1"]
  by (simp add: normal_image_of_def Let_def length_grid_of)

lemma normal_image_of_shape:
  assumes "shape L = (H, W)" and "0 < H" and "0 < W"
  shows "map length (normal_image_of m c L) = replicate H W"
  using assms by (simp add: normal_image_of_def Let_def map_length_zero_pad_grid_of)

lemma norm3_local_normal_mean:
  "norm3 (local_normal_mean h w n i j) = 0 \<or> norm3 (local_normal_mean h w n i j) = 1"
  by (simp add: local_normal_mean_def norm3_normalize)

lemma norm3_mean_normal: "norm3 (mean_normal h w n) = 0 \<or> norm3 (mean_normal h w n) = 1"
  by (simp add: mean_normal_def norm3_normalize)

lemma masked_pixel_unit:
  assumes "m ! i ! j" and "mean_normal h w (oriented_normal c L) \<noteq> 0"
  shows "norm3 (filled_normal m h w (oriented_normal c L) i j) = 1"
proof (cases "norm3 (repaired_normal m h w (oriented_normal c L) i j) = 0")
  case True
  then have "filled_normal m h w (oriented_normal c L) i j = mean_normal h w (oriented_normal c L)"
    using assms(1) by (simp add: filled_normal_def)
  moreover have "norm3 (mean_normal h w (oriented_normal c L)) \<noteq> 0"
    using assms(2) by (simp add: norm3_eq_0_iff)
  ultimately show ?thesis
    using norm3_mean_normal [of h w "oriented_normal c L"] by auto
next
  case False
  then have "filled_normal m h w (oriented_normal c L) i j
      = repaired_normal m h w (oriented_normal c L) i j"
    by (simp add: filled_normal_def)
  moreover have "norm3 (repaired_normal m h w (oriented_normal c L) i j) = 0
      \<or> norm3 (repaired_normal m h w (oriented_normal c L) i j) = 1"
    using norm3_local_normal_mean [of h w "oriented_normal c L" i j]
      norm3_oriented_normal [of c L i j]
    by (auto simp: repaired_normal_def)
  ultimately show ?thesis
    using False by auto
qed

lemma filled_normal_kept:
  assumes "m ! i ! j" and "m ! (i + 1) ! j" and "m ! i ! (j + 1)" and "n i j \<noteq> 0"
  shows "filled_normal m h w n i j = n i j"
  using assms by (simp add: filled_normal_def repaired_normal_def replacement_mask1_def norm3_eq_0_iff)

lemma filled_normal_unmasked:
  assumes "\<not> m ! i ! j"
  shows "filled_normal m h w n i j = n i j"
  using assms by (simp add: filled_normal_def repaired_normal_def replacement_mask1_def)

lemma implied_normal_image_result:
  assumes "initialize d m K Rt = Inr p" and "implied_normal_image p = Inr g"
  shows "\<exists>v L. location_vector p = Inr v \<and> create_image p v None = Inr L
           \<and> shape L = shape d \<and> 0 < fst (shape d) \<and> 0 < snd (shape d)
           \<and> \<not> touches_border (mask_grid p)
           \<and> g = normal_image_of (mask_grid p) (camloc Rt) L"
proof -
  obtain v L where v: "location_vector p = Inr v" and L: "create_image p v None = Inr L"
    and ml: "map length L = map length (mask_grid p)"
    using location_image_after_initialize [OF assms(1)] by blast
  have ms: "map length (mask_grid p) = replicate (fst (shape d)) (snd (shape d))"
    by (rule initialize_shape(1) [OF assms(1)])
  have nz: "fst (shape (mask_grid p)) \<noteq> 0 \<and> snd (shape (mask_grid p)) \<noteq> 0"
    and nb: "\<not> touches_border (mask_grid p)"
    and g: "g = normal_image_of (mask_grid p) (camloc (invRt p)) L"
    using assms(2) v L by (auto simp: implied_normal_image_def split: if_splits)
  have "length (mask_grid p) = fst (shape d)"
    using ms by (metis length_map length_replicate)
  then have h: "0 < fst (shape d)"
    using nz by (simp add: shape_def)
  have sm: "shape (mask_grid p) = (fst (shape d), snd (shape d))"
    using ms h by (rule shape_replicate)
  then have w: "0 < snd (shape d)"
    using nz by simp
  have "shape L = shape d"
    using shape_cong [OF ml] sm by simp
  then show ?thesis
    using v L h w nb g initialize_shape(4) [OF assms(1)] by simp
qed

text \<open>
  C5, amended.  In exact arithmetic, on a parametrization that \<open>initialize\<close> returned and
  on which \<open>implied_normal_image()\<close> returns: an interior masked pixel holds a vector of
  norm 1 when the global mean of the windowed means is not the zero vector, and also
  when its lower and right neighbours are masked and its finite-difference normal is not
  zero, which it then keeps; the last row and the last column hold the zero vector; an
  interior pixel outside the mask holds the finite-difference normal of the zero-filled
  location image, which need not be zero.
\<close>

theorem implied_normal_image_unit_and_zero:
  assumes "initialize d m K Rt = Inr p" and "implied_normal_image p = Inr g"
    and "location_vector p = Inr v" and "create_image p v None = Inr L"
    and "i < fst (shape d)" and "j < snd (shape d)"
  shows "(i + 1 < fst (shape d) \<and> j + 1 < snd (shape d) \<and> mask_grid p ! i ! j
           \<and> mean_normal (fst (shape d) - 1) (snd (shape d) - 1) (oriented_normal (camloc Rt) L) \<noteq> 0
         \<longrightarrow> norm3 (g ! i ! j) = 1)
    \<and> (i + 1 < fst (shape d) \<and> j + 1 < snd (shape d) \<and> mask_grid p ! i ! j
         \<and> mask_grid p ! (i + 1) ! j \<and> mask_grid p ! i ! (j + 1)
         \<and> oriented_normal (camloc Rt) L i j \<noteq> 0
         \<longrightarrow> g ! i ! j = oriented_normal (camloc Rt) L i j \<and> norm3 (g ! i ! j) = 1)
    \<and> (i = fst (shape d) - 1 \<or> j = snd (shape d) - 1 \<longrightarrow> g ! i ! j = 0)
    \<and> (i + 1 < fst (shape d) \<and> j + 1 < snd (shape d) \<and> \<not> mask_grid p ! i ! j
         \<longrightarrow> g ! i ! j = oriented_normal (camloc Rt) L i j)"
proof -
  let ?H = "fst (shape d)" and ?W = "snd (shape d)"
  let ?n = "oriented_normal (camloc Rt) L"
  have sh: "shape L = (?H, ?W)" and h: "0 < ?H" and w: "0 < ?W"
    and g: "g = normal_image_of (mask_grid p) (camloc Rt) L"
    using implied_normal_image_result [OF assms(1,2)] assms(3,4) by auto
  have last_row: "g ! (?H - 1) ! j = 0"
    unfolding g using sh h assms(6) by (rule normal_image_of_last_row)
  have last_col: "g ! i ! (?W - 1) = 0" if "i + 1 < ?H"
    unfolding g using sh that w by (rule normal_image_of_last_col)
  have interior: "g ! i ! j = filled_normal (mask_grid p) (?H - 1) (?W - 1) ?n i j"
    if "i + 1 < ?H" and "j + 1 < ?W"
    unfolding g using sh that by (rule normal_image_of_interior)
  have zero: "g ! i ! j = 0" if "i = ?H - 1 \<or> j = ?W - 1"
  proof (cases "i = ?H - 1")
    case True
    then show ?thesis using last_row by simp
  next
    case False
    then have "i + 1 < ?H" using assms(5) by linarith
    then show ?thesis using last_col that False by auto
  qed
  have "norm3 (g ! i ! j) = 1"
    if "i + 1 < ?H \<and> j + 1 < ?W \<and> mask_grid p ! i ! j
          \<and> mean_normal (?H - 1) (?W - 1) ?n \<noteq> 0"
    using that interior by (simp add: masked_pixel_unit)
  moreover have "g ! i ! j = ?n i j"
    if "i + 1 < ?H \<and> j + 1 < ?W \<and> \<not> mask_grid p ! i ! j"
    using that interior by (simp add: filled_normal_unmasked)
  moreover have "g ! i ! j = ?n i j \<and> norm3 (g ! i ! j) = 1"
    if a: "i + 1 < ?H \<and> j + 1 < ?W \<and> mask_grid p ! i ! j
         \<and> mask_grid p ! (i + 1) ! j \<and> mask_grid p ! i ! (j + 1) \<and> ?n i j \<noteq> 0"
  proof -
    have e: "g ! i ! j = ?n i j"
      using a interior by (simp add: filled_normal_kept)
    moreover have "norm3 (?n i j) \<noteq> 0"
      using a by (simp add: norm3_eq_0_iff)
    ultimately show ?thesis
      using norm3_oriented_normal [of "camloc Rt" L i j] by auto
  qed
  ultimately show ?thesis
    using zero by blast
qed

section \<open>The normal image on the examples\<close>

lemma upt_5: "[0..<5] = [0, 1, 2, 3, 4]"
  by (simp add: upt_rec)

lemma upt_3: "[0..<3] = [0, 1, 2]"
  by (simp add: upt_rec)

lemma initialize_isolated_pixel:
  "initialize [[1, 1], [1, 1]] (contiguous [[True, False], [False, False]]) eye3 \<lparr>rot = eye3, camloc = 0\<rparr>
     = Inr isolated_pixel"
  by (simp add: isolated_pixel_def initialize_def view_def contiguous_def shape_def mask_sum_def count_true_def)

lemma isolated_pixel_locations:
  "location_vector isolated_pixel = Inr [Vec3 0 0 1]"
  "create_image isolated_pixel [Vec3 0 0 1] None = Inr [[Vec3 0 0 1, 0], [0, 0]]"
  by (simp_all add: isolated_pixel_def location_vector_def masked_index_def
      depth_map_to_locations_def shape_def unproject_def eye3_def zero_vec3_def
      create_image_def masked_assign_def mask_sum_def count_true_def)

lemma isolated_pixel_normal:
  "oriented_normal 0 [[Vec3 0 0 1, 0], [0, 0]] 0 0 = 0"
  by (simp add: oriented_normal_def finite_difference_normal_def down_vector_def
      right_vector_def normalize3_def norm3_def zero_vec3_def)

lemma isolated_pixel_filled:
  "filled_normal [[True, False], [False, False]] (Suc 0) (Suc 0)
     (oriented_normal 0 [[Vec3 0 0 1, 0], [0, 0]]) 0 0 = 0"
  by (simp add: filled_normal_def repaired_normal_def replacement_mask1_def norm3_zero
      local_normal_mean_def window_sum_def upt_5 isolated_pixel_normal normalize3_def
      mean_normal_def grid_of_def)

lemma isolated_pixel_image: "implied_normal_image isolated_pixel = Inr [[0, 0], [0, 0]]"
proof -
  have "normal_image_of [[True, False], [False, False]] 0 [[Vec3 0 0 1, 0], [0, 0]]
          = [[0, 0], [0, 0]]"
    using isolated_pixel_filled
    by (simp add: shape_def normal_image_of_def zero_pad_def grid_of_def)
  then show ?thesis
    using isolated_pixel_locations
    by (simp add: implied_normal_image_def)
       (simp add: isolated_pixel_def shape_def touches_border_def count_true_def)
qed

lemma initialize_corner_gap:
  "initialize [[1, 1, 1], [1, 1, 1], [1, 1, 1]]
      (contiguous [[False, True, False], [True, False, False], [False, False, False]]) eye3
      \<lparr>rot = eye3, camloc = Vec3 0 0 (- 1)\<rparr>
     = Inr corner_gap"
  by (simp add: corner_gap_def initialize_def view_def contiguous_def shape_def mask_sum_def count_true_def)

lemma corner_gap_location_image:
  "location_vector corner_gap = Inr [Vec3 1 0 0, Vec3 0 1 0]"
  "create_image corner_gap [Vec3 1 0 0, Vec3 0 1 0] None
     = Inr corner_gap_locations"
  by (simp_all add: corner_gap_def location_vector_def masked_index_def
      depth_map_to_locations_def shape_def unproject_def eye3_def zero_vec3_def upt_3
      create_image_def masked_assign_def mask_sum_def count_true_def corner_gap_locations_def)

lemma corner_gap_normal:
  "oriented_normal (Vec3 0 0 (- 1)) corner_gap_locations 0 0
     = Vec3 0 0 (- 1)"
  by (simp add: corner_gap_locations_def oriented_normal_def reorientation_def
      finite_difference_normal_def down_vector_def right_vector_def normalize3_def norm3_def
      zero_vec3_def)

lemma corner_gap_image:
  "implied_normal_image corner_gap
     = Inr (normal_image_of (mask_grid corner_gap) (Vec3 0 0 (- 1))
              corner_gap_locations)"
  using corner_gap_location_image
  by (simp add: implied_normal_image_def)
     (simp add: corner_gap_def shape_def touches_border_def count_true_def)

lemma corner_gap_pixel:
  "normal_image_of (mask_grid corner_gap) (Vec3 0 0 (- 1))
      corner_gap_locations ! 0 ! 0 = Vec3 0 0 (- 1)"
proof -
  have "shape corner_gap_locations = (3, 3)"
    by (simp add: shape_def corner_gap_locations_def)
  then have "normal_image_of (mask_grid corner_gap) (Vec3 0 0 (- 1))
      corner_gap_locations ! 0 ! 0
      = filled_normal (mask_grid corner_gap) (3 - 1) (3 - 1)
          (oriented_normal (Vec3 0 0 (- 1))
             corner_gap_locations) 0 0"
    by (rule normal_image_of_interior) simp_all
  also have "\<dots> = Vec3 0 0 (- 1)"
    by (simp add: filled_normal_unmasked corner_gap_def corner_gap_normal)
  finally show ?thesis .
qed

text \<open>
  C5, as the claim states it, fails in both halves: the single masked pixel of
  \<open>isolated_pixel\<close> gets the zero vector, and the unmasked corner of \<open>corner_gap\<close>
  gets a vector that is not zero.
\<close>

theorem implied_normal_image_counterexample:
  "initialize [[1, 1], [1, 1]] (contiguous [[True, False], [False, False]]) eye3 \<lparr>rot = eye3, camloc = 0\<rparr>
     = Inr isolated_pixel
   \<and> implied_normal_image isolated_pixel = Inr [[0, 0], [0, 0]]
   \<and> mask_grid isolated_pixel ! 0 ! 0
   \<and> norm3 ([[0, 0], [0, 0]] ! 0 ! 0) = 0
   \<and> initialize [[1, 1, 1], [1, 1, 1], [1, 1, 1]]
        (contiguous [[False, True, False], [True, False, False], [False, False, False]]) eye3
        \<lparr>rot = eye3, camloc = Vec3 0 0 (- 1)\<rparr>
     = Inr corner_gap
   \<and> implied_normal_image corner_gap
     = Inr (normal_image_of (mask_grid corner_gap) (Vec3 0 0 (- 1))
              corner_gap_locations)
   \<and> \<not> mask_grid corner_gap ! 0 ! 0
   \<and> normal_image_of (mask_grid corner_gap) (Vec3 0 0 (- 1))
        corner_gap_locations ! 0 ! 0 = Vec3 0 0 (- 1)
   \<and> Vec3 0 0 (- 1) \<noteq> 0"
proof -
  have "norm3 ([[0, 0], [0, 0]] ! 0 ! 0) = 0"
    by (simp add: norm3_zero)
  moreover have "Vec3 0 0 (- 1) \<noteq> 0"
    by (simp add: zero_vec3_def)
  moreover have "mask_grid isolated_pixel ! 0 ! 0" and "\<not> mask_grid corner_gap ! 0 ! 0"
    by (simp_all add: isolated_pixel_def corner_gap_def)
  ultimately show ?thesis
    using initialize_isolated_pixel isolated_pixel_image initialize_corner_gap
      corner_gap_image corner_gap_pixel
    by (intro conjI) assumption+
qed


lemma initialize_flat_patch:
  "initialize [[1, 1, 1], [1, 1, 1], [1, 1, 1]]
      (contiguous [[True, True, False], [True, True, False], [False, False, False]]) eye3
      \<lparr>rot = eye3, camloc = 0\<rparr>
     = Inr flat_patch"
  by (simp add: flat_patch_def initialize_def view_def contiguous_def shape_def mask_sum_def count_true_def)

lemma flat_patch_location_vector:
  "location_vector flat_patch = Inr [Vec3 0 0 1, Vec3 1 0 1, Vec3 0 1 1, Vec3 1 1 1]"
  by (simp add: flat_patch_def location_vector_def masked_index_def
      depth_map_to_locations_def shape_def unproject_def eye3_def zero_vec3_def upt_3)

lemma flat_patch_location_image:
  "create_image flat_patch [Vec3 0 0 1, Vec3 1 0 1, Vec3 0 1 1, Vec3 1 1 1] None
     = Inr flat_patch_locations"
  by (simp add: flat_patch_def flat_patch_locations_def create_image_def masked_assign_def
      mask_sum_def count_true_def)

lemma flat_patch_normal:
  "oriented_normal 0 flat_patch_locations 0 0 = Vec3 0 0 (- 1)"
  by (simp add: flat_patch_locations_def oriented_normal_def reorientation_def
      finite_difference_normal_def down_vector_def right_vector_def normalize3_def norm3_def
      zero_vec3_def)

lemma flat_patch_image:
  "implied_normal_image flat_patch
     = Inr (normal_image_of (mask_grid flat_patch) 0 flat_patch_locations)"
  using flat_patch_location_vector flat_patch_location_image
  by (simp add: implied_normal_image_def)
     (simp add: flat_patch_def shape_def touches_border_def count_true_def)

lemma flat_patch_pixel:
  "normal_image_of (mask_grid flat_patch) 0 flat_patch_locations ! 0 ! 0 = Vec3 0 0 (- 1)"
proof -
  have "shape flat_patch_locations = (3, 3)"
    by (simp add: shape_def flat_patch_locations_def)
  then have "normal_image_of (mask_grid flat_patch) 0 flat_patch_locations ! 0 ! 0
      = filled_normal (mask_grid flat_patch) (3 - 1) (3 - 1)
          (oriented_normal 0 flat_patch_locations) 0 0"
    by (rule normal_image_of_interior) simp_all
  also have "\<dots> = oriented_normal 0 flat_patch_locations 0 0"
  proof (rule filled_normal_kept)
    show "oriented_normal 0 flat_patch_locations 0 0 \<noteq> 0"
      unfolding flat_patch_normal by (simp add: zero_vec3_def)
  qed (simp_all add: flat_patch_def)
  finally show ?thesis
    by (simp add: flat_patch_normal)
qed

text \<open>
  C8, as the claim states it, fails: on the flat patch the normal at pixel \<open>(0, 0)\<close>
  has inner product \<open>-1\<close> with the point minus the camera location.
\<close>

theorem normal_faces_camera_counterexample:
  "initialize [[1, 1, 1], [1, 1, 1], [1, 1, 1]]
      (contiguous [[True, True, False], [True, True, False], [False, False, False]]) eye3
      \<lparr>rot = eye3, camloc = 0\<rparr>
     = Inr flat_patch
   \<and> location_vector flat_patch = Inr [Vec3 0 0 1, Vec3 1 0 1, Vec3 0 1 1, Vec3 1 1 1]
   \<and> create_image flat_patch [Vec3 0 0 1, Vec3 1 0 1, Vec3 0 1 1, Vec3 1 1 1] None
       = Inr flat_patch_locations
   \<and> implied_normal_image flat_patch
       = Inr (normal_image_of (mask_grid flat_patch) 0 flat_patch_locations)
   \<and> inner_product (normal_image_of (mask_grid flat_patch) 0 flat_patch_locations ! 0 ! 0)
        (flat_patch_locations ! 0 ! 0 - camloc (invRt flat_patch)) = - 1"
proof -
  have "inner_product (Vec3 0 0 (- 1)) (flat_patch_locations ! 0 ! 0 - camloc (invRt flat_patch))
          = - 1"
    by (simp add: flat_patch_locations_def flat_patch_def zero_vec3_def)
  then show ?thesis
    using initialize_flat_patch flat_patch_location_vector flat_patch_location_image
      flat_patch_image flat_patch_pixel
    by simp
qed

lemma upt_2: "[0..<2] = [0, Suc 0]"
  by (simp add: upt_rec)

lemma corner_gap_normals:
  "oriented_normal (Vec3 0 0 (- 1)) corner_gap_locations 0 (Suc 0) = 0"
  "oriented_normal (Vec3 0 0 (- 1)) corner_gap_locations (Suc 0) 0 = 0"
  "oriented_normal (Vec3 0 0 (- 1)) corner_gap_locations (Suc 0) (Suc 0) = 0"
  by (simp_all add: corner_gap_locations_def oriented_normal_def reorientation_def finite_difference_normal_def
      down_vector_def right_vector_def normalize3_def norm3_def zero_vec3_def)

lemma corner_gap_window:
  "window_sum 2 2 (oriented_normal (Vec3 0 0 (- 1)) corner_gap_locations) 0 0 = Vec3 0 0 (- 1)"
  "window_sum 2 2 (oriented_normal (Vec3 0 0 (- 1)) corner_gap_locations) 0 (Suc 0)
     = Vec3 0 0 (- 1)"
  "window_sum 2 2 (oriented_normal (Vec3 0 0 (- 1)) corner_gap_locations) (Suc 0) 0
     = Vec3 0 0 (- 1)"
  "window_sum 2 2 (oriented_normal (Vec3 0 0 (- 1)) corner_gap_locations) (Suc 0) (Suc 0)
     = Vec3 0 0 (- 1)"
  by (simp_all add: window_sum_def upt_5 corner_gap_normal corner_gap_normals zero_vec3_def)

lemma corner_gap_local_mean:
  "local_normal_mean 2 2 (oriented_normal (Vec3 0 0 (- 1)) corner_gap_locations) 0 0
     = Vec3 0 0 (- 1)"
  "local_normal_mean 2 2 (oriented_normal (Vec3 0 0 (- 1)) corner_gap_locations) 0 (Suc 0)
     = Vec3 0 0 (- 1)"
  "local_normal_mean 2 2 (oriented_normal (Vec3 0 0 (- 1)) corner_gap_locations) (Suc 0) 0
     = Vec3 0 0 (- 1)"
  "local_normal_mean 2 2 (oriented_normal (Vec3 0 0 (- 1)) corner_gap_locations) (Suc 0) (Suc 0)
     = Vec3 0 0 (- 1)"
  by (simp_all add: local_normal_mean_def corner_gap_window normalize3_def norm3_def)

lemma corner_gap_mean_normal:
  "mean_normal 2 2 (oriented_normal (Vec3 0 0 (- 1)) corner_gap_locations) = Vec3 0 0 (- 1)"
  by (simp add: mean_normal_def grid_of_def upt_2 corner_gap_local_mean normalize3_def norm3_def)

theorem implied_normal_image_unit_and_zero_witness:
  "initialize [[1, 1, 1], [1, 1, 1], [1, 1, 1]]
      (contiguous [[False, True, False], [True, False, False], [False, False, False]]) eye3
      \<lparr>rot = eye3, camloc = Vec3 0 0 (- 1)\<rparr>
     = Inr corner_gap
   \<and> implied_normal_image corner_gap
       = Inr (normal_image_of (mask_grid corner_gap) (Vec3 0 0 (- 1)) corner_gap_locations)
   \<and> mask_grid corner_gap ! 0 ! 1
   \<and> mean_normal 2 2 (oriented_normal (Vec3 0 0 (- 1)) corner_gap_locations) \<noteq> 0
   \<and> norm3 (normal_image_of (mask_grid corner_gap) (Vec3 0 0 (- 1)) corner_gap_locations
              ! 0 ! 1) = 1
   \<and> initialize [[1, 1, 1], [1, 1, 1], [1, 1, 1]]
      (contiguous [[True, True, False], [True, True, False], [False, False, False]]) eye3
      \<lparr>rot = eye3, camloc = 0\<rparr>
     = Inr flat_patch
   \<and> implied_normal_image flat_patch
       = Inr (normal_image_of (mask_grid flat_patch) 0 flat_patch_locations)
   \<and> mask_grid flat_patch ! 0 ! 0 \<and> mask_grid flat_patch ! 1 ! 0 \<and> mask_grid flat_patch ! 0 ! 1
   \<and> oriented_normal 0 flat_patch_locations 0 0 \<noteq> 0
   \<and> normal_image_of (mask_grid flat_patch) 0 flat_patch_locations ! 0 ! 0
       = oriented_normal 0 flat_patch_locations 0 0
   \<and> norm3 (normal_image_of (mask_grid flat_patch) 0 flat_patch_locations ! 0 ! 0) = 1"
proof -
  have s: "(0::nat) < fst (shape [[1, 1, 1], [1, 1, 1], [1, 1, 1::real]])"
    "(0::nat) + 1 < fst (shape [[1, 1, 1], [1, 1, 1], [1, 1, 1::real]])"
    "(0::nat) < snd (shape [[1, 1, 1], [1, 1, 1], [1, 1, 1::real]])"
    "(0::nat) + 1 < snd (shape [[1, 1, 1], [1, 1, 1], [1, 1, 1::real]])"
    "(1::nat) < snd (shape [[1, 1, 1], [1, 1, 1], [1, 1, 1::real]])"
    "(1::nat) + 1 < snd (shape [[1, 1, 1], [1, 1, 1], [1, 1, 1::real]])"
    "fst (shape [[1, 1, 1], [1, 1, 1], [1, 1, 1::real]]) - 1 = 2"
    "snd (shape [[1, 1, 1], [1, 1, 1], [1, 1, 1::real]]) - 1 = 2"
    by (simp_all add: shape_def)
  have cm: "mask_grid corner_gap ! 0 ! 1"
    by (simp add: corner_gap_def)
  have cn: "mean_normal 2 2 (oriented_normal (Vec3 0 0 (- 1)) corner_gap_locations) \<noteq> 0"
    unfolding corner_gap_mean_normal by (simp add: zero_vec3_def)
  have cc: "camloc \<lparr>rot = eye3, camloc = Vec3 0 0 (- 1)\<rparr> = Vec3 0 0 (- 1)"
    by simp
  have c: "norm3 (normal_image_of (mask_grid corner_gap) (Vec3 0 0 (- 1)) corner_gap_locations
                    ! 0 ! 1) = 1"
    using implied_normal_image_unit_and_zero [OF initialize_corner_gap corner_gap_image
        corner_gap_location_image s(1) s(5)] s cm cn
    unfolding cc by simp
  have m: "mask_grid flat_patch ! 0 ! 0 \<and> mask_grid flat_patch ! 1 ! 0
             \<and> mask_grid flat_patch ! 0 ! 1"
    by (simp add: flat_patch_def)
  have n: "oriented_normal 0 flat_patch_locations 0 0 \<noteq> 0"
    unfolding flat_patch_normal by (simp add: zero_vec3_def)
  have f: "normal_image_of (mask_grid flat_patch) 0 flat_patch_locations ! 0 ! 0
       = oriented_normal 0 flat_patch_locations 0 0
     \<and> norm3 (normal_image_of (mask_grid flat_patch) 0 flat_patch_locations ! 0 ! 0) = 1"
    using implied_normal_image_unit_and_zero [OF initialize_flat_patch flat_patch_image
        flat_patch_location_vector flat_patch_location_image s(1) s(3)] m n s
    by auto
  show ?thesis
    using initialize_corner_gap corner_gap_image cm cn c initialize_flat_patch
      flat_patch_image m n f
    by blast
qed

section \<open>The orientation of the finite-difference normal\<close>

text \<open>
  C8, amended.  The sign is chosen so that the inner product of the normal with the
  camera location minus the point is not negative: it is the absolute value of the inner
  product before the flip.  With the point minus the camera location it is not positive.
\<close>

theorem normal_faces_camera:
  "inner_product (oriented_normal c L i j) (c - L ! i ! j)
     = \<bar>inner_product (finite_difference_normal L i j) (c - L ! i ! j)\<bar>
   \<and> 0 \<le> inner_product (oriented_normal c L i j) (c - L ! i ! j)
   \<and> inner_product (oriented_normal c L i j) (L ! i ! j - c) \<le> 0"
proof -
  have "inner_product (oriented_normal c L i j) (c - L ! i ! j)
     = \<bar>inner_product (finite_difference_normal L i j) (c - L ! i ! j)\<bar>"
    by (simp add: oriented_normal_def reorientation_def inner_product_scale3 sgn_real_def)
  then show ?thesis
    using inner_product_minus_right [of "oriented_normal c L i j" "L ! i ! j" c] by simp
qed


section \<open>The best inlier count\<close>

lemma map2_keep_left: "length bs = length cs \<Longrightarrow> map2 (\<lambda>b c. b) bs cs = bs"
  by (induction bs cs rule: list_induct2) auto

lemma map2_take_right: "length bs = length cs \<Longrightarrow> map2 (\<lambda>b c. c) bs cs = cs"
  by (induction bs cs rule: list_induct2) auto

lemma keep_best_cases:
  assumes "length (best_inliers st) = length inl"
  shows "keep_best inl st =
     (if best_inlier_counts st < sum_list inl
      then \<lparr>best_inlier_counts = sum_list inl, best_inliers = inl\<rparr> else st)"
  using assms by (simp add: keep_best_def Let_def map2_keep_left map2_take_right)

lemma keep_best_mono: "best_inlier_counts st \<le> best_inlier_counts (keep_best inl st)"
  by (simp add: keep_best_def Let_def)

lemma length_inliers_of: "length (inliers_of views sol) = length views"
  by (simp add: inliers_of_def)

lemma length_keep_best:
  "length (best_inliers st) = length inl \<Longrightarrow> length (best_inliers (keep_best inl st)) = length inl"
  by (simp add: keep_best_cases)

lemma ransac_iteration_result:
  assumes "ransac_iteration views idx st = Inr st'"
  shows "\<exists>sol. st' = keep_best (inliers_of views sol) st"
  using assms by (auto simp: ransac_iteration_def split: sum.splits)

lemma ransac_iteration_mono:
  assumes "ransac_iteration views idx st = Inr st'"
  shows "best_inlier_counts st \<le> best_inlier_counts st'"
  using ransac_iteration_result [OF assms] keep_best_mono by auto

lemma ransac_loop_mono:
  "ransac_loop views subsets st = Inr st' \<Longrightarrow> best_inlier_counts st \<le> best_inlier_counts st'"
proof (induction subsets arbitrary: st)
  case Nil
  then show ?case by simp
next
  case (Cons idx subsets)
  then obtain st1 where 1: "ransac_iteration views idx st = Inr st1"
    and 2: "ransac_loop views subsets st1 = Inr st'"
    by (auto split: sum.splits)
  show ?case
    using ransac_iteration_mono [OF 1] Cons.IH [OF 2] by linarith
qed

text \<open>
  C2.  The best inlier count of a point starts at \<open>-1\<close>; an iteration never lowers
  it, nor does the whole loop; and an iteration leaves the state as it was unless its
  inlier count is strictly greater than the best so far, in which case count and mask
  are those of the iteration.  On a tie the earlier result stays.
\<close>

theorem best_inlier_counts_monotone:
  assumes "length (best_inliers st) = length views"
  shows "best_inlier_counts (initial_state C) = - 1
    \<and> (ransac_iteration views idx st = Inr st' \<longrightarrow>
         best_inlier_counts st \<le> best_inlier_counts st'
         \<and> (\<exists>sol. st' = (if best_inlier_counts st < sum_list (inliers_of views sol)
                          then \<lparr>best_inlier_counts = sum_list (inliers_of views sol),
                                best_inliers = inliers_of views sol\<rparr>
                          else st)))
    \<and> (ransac_loop views subsets st = Inr st'' \<longrightarrow>
         best_inlier_counts st \<le> best_inlier_counts st'')"
proof (intro conjI impI)
  show "best_inlier_counts (initial_state C) = - 1"
    by (simp add: initial_state_def)
next
  assume "ransac_iteration views idx st = Inr st'"
  then show "best_inlier_counts st \<le> best_inlier_counts st'"
    by (rule ransac_iteration_mono)
next
  assume "ransac_iteration views idx st = Inr st'"
  then obtain sol where "st' = keep_best (inliers_of views sol) st"
    using ransac_iteration_result by blast
  then have "st' = (if best_inlier_counts st < sum_list (inliers_of views sol)
                          then \<lparr>best_inlier_counts = sum_list (inliers_of views sol),
                                best_inliers = inliers_of views sol\<rparr>
                          else st)"
    using assms by (simp add: keep_best_cases length_inliers_of)
  then show "\<exists>sol. st' = (if best_inlier_counts st < sum_list (inliers_of views sol)
                          then \<lparr>best_inlier_counts = sum_list (inliers_of views sol),
                                best_inliers = inliers_of views sol\<rparr>
                          else st)" ..
next
  assume "ransac_loop views subsets st = Inr st''"
  then show "best_inlier_counts st \<le> best_inlier_counts st''"
    by (rule ransac_loop_mono)
qed

lemma bright_view_gray:
  "valid_mask bright_view = 1"
  "gray_light_intensities bright_view = Vec3 1 0 0"
  "gray_observations bright_view = 30000"
  by (simp_all add: bright_view_def valid_mask_def shadowing_mask_def occlusion_mask_def
      gray_light_intensities_def gray_observations_def incident_light_def)

lemma bright_view_solve:
  "regularized_solve (mat_scale 1 eye) [Vec3 1 0 0] [30000] = Inr (Vec3 (30000 / 100000001) 0 0)"
  by (simp add: regularized_solve_def gram_def eye_def eye3_def zero_vec3_def inverse3_def)

lemma bright_view_iteration:
  "ransac_iteration [bright_view] [0] (initial_state 1)
     = Inr \<lparr>best_inlier_counts = 0, best_inliers = [0]\<rparr>"
  by (simp add: ransac_iteration_def index_select_def bright_view_gray invalids_of_def
      bright_view_solve inliers_of_def threshold_def keep_best_def initial_state_def)

theorem best_inlier_counts_monotone_witness:
  "length (best_inliers (initial_state 1)) = length [bright_view]
   \<and> best_inlier_counts (initial_state 1) = - 1
   \<and> ransac_iteration [bright_view] [0] (initial_state 1)
       = Inr \<lparr>best_inlier_counts = 0, best_inliers = [0]\<rparr>
   \<and> ransac_loop [bright_view] [[0]] (initial_state 1)
       = Inr \<lparr>best_inlier_counts = 0, best_inliers = [0]\<rparr>
   \<and> best_inlier_counts (initial_state 1)
       \<le> best_inlier_counts \<lparr>best_inlier_counts = 0, best_inliers = [0]\<rparr>"
proof -
  have h: "length (best_inliers (initial_state 1)) = length [bright_view]"
    by (simp add: initial_state_def)
  have l: "ransac_loop [bright_view] [[0]] (initial_state 1)
       = Inr \<lparr>best_inlier_counts = 0, best_inliers = [0]\<rparr>"
    using bright_view_iteration by simp
  show ?thesis
    using h l bright_view_iteration
      best_inlier_counts_monotone [OF h, of 1 "[0]"
        "\<lparr>best_inlier_counts = 0, best_inliers = [0]\<rparr>" "[[0]]"
        "\<lparr>best_inlier_counts = 0, best_inliers = [0]\<rparr>"]
    by simp
qed

lemma sum_list_map2_scale:
  "sum_list (map2 (\<lambda>x y. r * x * y) xs ys) = r * sum_list (map2 (\<lambda>x y. x * y) xs (ys::real list))"
proof (induction xs arbitrary: ys)
  case Nil
  then show ?case by simp
next
  case (Cons x xs)
  then show ?case by (cases ys) (simp_all add: algebra_simps)
qed

lemma c_albedo_normal_equation:
  assumes "c_albedo n views best c = Inr a"
  shows "(sum_list (map (\<lambda>x. x * x) (c_light_intensities n views best c))
            + inlier_invalids views best) * a
         = sum_list (map2 (\<lambda>x y. x * y) (c_light_intensities n views best c)
             (c_observations views best c))"
proof -
  let ?D = "sum_list (map (\<lambda>x. x * x) (c_light_intensities n views best c))
              + inlier_invalids views best"
  obtain q where q: "inverse1 ?D = Inr q"
    and a: "a = sum_list (map2 (\<lambda>x y. q * x * y) (c_light_intensities n views best c)
                 (c_observations views best c))"
    using assms by (auto simp: c_albedo_def Let_def split: sum.splits)
  have "?D \<noteq> 0" and "q = 1 / ?D"
    using q by (auto simp: inverse1_def split: if_splits)
  then have "?D * q = 1"
    by simp
  then show ?thesis
    unfolding a sum_list_map2_scale by (simp only: mult.assoc [symmetric] mult_1)
qed

lemma length_c_residuals:
  "length (c_residuals n views best c a) = min (length views) (length best)"
  by (simp add: c_residuals_def c_light_intensities_def c_observations_def)

lemma zip3_channels:
  assumes "length xs = length ys" and "length ys = length zs"
  shows "map (\<lambda>x. channel x 0) (map (\<lambda>(r0, r1, r2). Vec3 r0 r1 r2) (zip xs (zip ys zs))) = xs"
    and "map (\<lambda>x. channel x 1) (map (\<lambda>(r0, r1, r2). Vec3 r0 r1 r2) (zip xs (zip ys zs))) = ys"
    and "map (\<lambda>x. channel x 2) (map (\<lambda>(r0, r1, r2). Vec3 r0 r1 r2) (zip xs (zip ys zs))) = zs"
  using assms by (induction xs ys zs rule: list_induct3) auto

lemma refit_result:
  assumes "refit views best = Inr r"
  shows "\<exists>a0 a1 a2.
           c_albedo (inlier_normals r) views best 0 = Inr a0
         \<and> c_albedo (inlier_normals r) views best 1 = Inr a1
         \<and> c_albedo (inlier_normals r) views best 2 = Inr a2
         \<and> albedos r = Vec3 (pi * a0) (pi * a1) (pi * a2)
         \<and> inliers r = best
         \<and> map (\<lambda>x. channel x 0) (residuals r) = c_residuals (inlier_normals r) views best 0 a0
         \<and> map (\<lambda>x. channel x 1) (residuals r) = c_residuals (inlier_normals r) views best 1 a1
         \<and> map (\<lambda>x. channel x 2) (residuals r) = c_residuals (inlier_normals r) views best 2 a2"
proof -
  obtain n a0 a1 a2 where n: "refit_normal views best = Inr n"
    and a: "c_albedo n views best 0 = Inr a0" "c_albedo n views best 1 = Inr a1"
      "c_albedo n views best 2 = Inr a2"
    and r: "r = \<lparr>inlier_normals = n, albedos = Vec3 (pi * a0) (pi * a1) (pi * a2),
                 inliers = best,
                 residuals = map (\<lambda>(r0, r1, r2). Vec3 r0 r1 r2)
                    (zip (c_residuals n views best 0 a0)
                      (zip (c_residuals n views best 1 a1) (c_residuals n views best 2 a2)))\<rparr>"
    using assms by (auto simp: refit_def split: sum.splits)
  have l: "length (c_residuals n views best 0 a0) = length (c_residuals n views best 1 a1)"
    "length (c_residuals n views best 1 a1) = length (c_residuals n views best 2 a2)"
    by (simp_all add: length_c_residuals)
  show ?thesis
    using a r zip3_channels [OF l] by simp
qed

text \<open>
  C7, amended.  For each colour channel the fitted coefficient \<open>a\<close> solves the
  \<open>1 \<times> 1\<close> normal equation of the masked shading against the masked observation,
  with the regularizer \<open>inlier_invalids\<close>: 1 when at most two valid inlier views remain,
  0 otherwise.  The albedo is \<open>\<pi> a\<close> and the residual is shading times \<open>a\<close> minus the
  masked observation.
\<close>

theorem albedo_refit:
  assumes "refit views best = Inr r" and "c < 3"
  shows "\<exists>a. (sum_list (map (\<lambda>x. x * x) (c_light_intensities (inlier_normals r) views best c))
               + (if sum_list (map2 (\<lambda>v b. valid_mask v * b) views best) \<le> 2 then 1 else 0)) * a
            = sum_list (map2 (\<lambda>x y. x * y) (c_light_intensities (inlier_normals r) views best c)
                (c_observations views best c))
          \<and> channel (albedos r) c = pi * a
          \<and> map (\<lambda>x. channel x c) (residuals r)
              = map2 (\<lambda>x y. x * a - y) (c_light_intensities (inlier_normals r) views best c)
                  (c_observations views best c)"
proof -
  obtain a0 a1 a2 where a: "c_albedo (inlier_normals r) views best 0 = Inr a0"
      "c_albedo (inlier_normals r) views best 1 = Inr a1"
      "c_albedo (inlier_normals r) views best 2 = Inr a2"
    and al: "albedos r = Vec3 (pi * a0) (pi * a1) (pi * a2)"
    and res: "map (\<lambda>x. channel x 0) (residuals r) = c_residuals (inlier_normals r) views best 0 a0"
      "map (\<lambda>x. channel x 1) (residuals r) = c_residuals (inlier_normals r) views best 1 a1"
      "map (\<lambda>x. channel x 2) (residuals r) = c_residuals (inlier_normals r) views best 2 a2"
    using refit_result [OF assms(1)] by blast
  have inv: "inlier_invalids views best
      = (if sum_list (map2 (\<lambda>v b. valid_mask v * b) views best) \<le> 2 then 1 else 0)"
    by (simp add: inlier_invalids_def invalids_of_def)
  consider "c = 0" | "c = 1" | "c = 2"
    using assms(2) by linarith
  then show ?thesis
  proof cases
    case 1
    show ?thesis
      using c_albedo_normal_equation [OF a(1)] al res(1) unfolding 1 inv c_residuals_def
      by (intro exI [of _ a0]) simp
  next
    case 2
    show ?thesis
      using c_albedo_normal_equation [OF a(2)] al res(2) unfolding 2 inv c_residuals_def
      by (intro exI [of _ a1]) simp
  next
    case 3
    show ?thesis
      using c_albedo_normal_equation [OF a(3)] al res(3) unfolding 3 inv c_residuals_def
      by (intro exI [of _ a2]) simp
  qed
qed

section \<open>The number of iterations\<close>

lemma sq_step_up:
  assumes "u * u \<le> u'" and "x ^ n \<le> u" and "0 \<le> (x::real)"
  shows "(x ^ n) ^ 2 \<le> u'"
proof -
  have "(x ^ n) ^ 2 \<le> u ^ 2"
    using assms(2,3) by (intro power_mono) simp_all
  then show ?thesis
    using assms(1) by (simp add: power2_eq_square)
qed

lemma sq_step_down:
  assumes "l' \<le> l * l" and "l \<le> x ^ n" and "0 \<le> (l::real)"
  shows "l' \<le> (x ^ n) ^ 2"
proof -
  have "l ^ 2 \<le> (x ^ n) ^ 2"
    using assms(2,3) by (intro power_mono) simp_all
  then show ?thesis
    using assms(1) by (simp add: power2_eq_square)
qed

lemma q_pow_upper: "(11529 / 15625 :: real) ^ 303 < 1 / 10 ^ 40"
proof -
  let ?q = "11529 / 15625 :: real"
  have u0: "?q ^ 1 \<le> 11529 / 15625" by simp
  have u1: "?q ^ 2 \<le> 544431476736000000 / 10 ^ 18"
    using sq_step_up [OF _ u0, of "544431476736000000 / 10 ^ 18"] by (simp add: power_mult [symmetric])
  have u2: "?q ^ 4 \<le> 296405632860941710 / 10 ^ 18"
    using sq_step_up [OF _ u1, of "296405632860941710 / 10 ^ 18"] by (simp add: power_mult [symmetric])
  have u3: "?q ^ 8 \<le> 878562991916953681 / 10 ^ 19"
    using sq_step_up [OF _ u2, of "878562991916953681 / 10 ^ 19"] by (simp add: power_mult [symmetric])
  have u4: "?q ^ 16 \<le> 771872930766069220 / 10 ^ 20"
    using sq_step_up [OF _ u3, of "771872930766069220 / 10 ^ 20"] by (simp add: power_mult [symmetric])
  have u5: "?q ^ 32 \<le> 595787821249401088 / 10 ^ 22"
    using sq_step_up [OF _ u4, of "595787821249401088 / 10 ^ 22"] by (simp add: power_mult [symmetric])
  have u6: "?q ^ 64 \<le> 354963127949108303 / 10 ^ 26"
    using sq_step_up [OF _ u5, of "354963127949108303 / 10 ^ 26"] by (simp add: power_mult [symmetric])
  have u7: "?q ^ 128 \<le> 125998822203415033 / 10 ^ 34"
    using sq_step_up [OF _ u6, of "125998822203415033 / 10 ^ 34"] by (simp add: power_mult [symmetric])
  have u8: "?q ^ 256 \<le> 158757031966477932 / 10 ^ 51"
    using sq_step_up [OF _ u7, of "158757031966477932 / 10 ^ 51"] by (simp add: power_mult [symmetric])
  have "?q ^ 303 = ?q ^ 256 * (?q ^ 32 * (?q ^ 8 * (?q ^ 4 * (?q ^ 2 * ?q ^ 1))))"
    by (simp only: power_add [symmetric]) simp
  also have "\<dots> \<le> (158757031966477932 / 10 ^ 51) * ((595787821249401088 / 10 ^ 22) * ((878562991916953681 / 10 ^ 19) * ((296405632860941710 / 10 ^ 18) * ((544431476736000000 / 10 ^ 18) * (11529 / 15625)))))"
    by (intro mult_mono u8 u5 u3 u2 u1 u0 mult_nonneg_nonneg) simp_all
  also have "\<dots> < 1 / 10 ^ 40"
    by simp
  finally show ?thesis .
qed

lemma q_pow_lower: "1 / 10 ^ 40 \<le> (11529 / 15625 :: real) ^ 302"
proof -
  let ?q = "11529 / 15625 :: real"
  have l0: "11529 / 15625 \<le> ?q ^ 1" by simp
  have l1: "544431476736000000 / 10 ^ 18 \<le> ?q ^ 2"
    using sq_step_down [OF _ l0, of "544431476736000000 / 10 ^ 18"] by (simp add: power_mult [symmetric])
  have l2: "296405632860941709 / 10 ^ 18 \<le> ?q ^ 4"
    using sq_step_down [OF _ l1, of "296405632860941709 / 10 ^ 18"] by (simp add: power_mult [symmetric])
  have l3: "878562991916953674 / 10 ^ 19 \<le> ?q ^ 8"
    using sq_step_down [OF _ l2, of "878562991916953674 / 10 ^ 19"] by (simp add: power_mult [symmetric])
  have l4: "771872930766069206 / 10 ^ 20 \<le> ?q ^ 16"
    using sq_step_down [OF _ l3, of "771872930766069206 / 10 ^ 20"] by (simp add: power_mult [symmetric])
  have l5: "595787821249401065 / 10 ^ 22 \<le> ?q ^ 32"
    using sq_step_down [OF _ l4, of "595787821249401065 / 10 ^ 22"] by (simp add: power_mult [symmetric])
  have l6: "354963127949108275 / 10 ^ 26 \<le> ?q ^ 64"
    using sq_step_down [OF _ l5, of "354963127949108275 / 10 ^ 26"] by (simp add: power_mult [symmetric])
  have l7: "125998822203415012 / 10 ^ 34 \<le> ?q ^ 128"
    using sq_step_down [OF _ l6, of "125998822203415012 / 10 ^ 34"] by (simp add: power_mult [symmetric])
  have l8: "158757031966477878 / 10 ^ 51 \<le> ?q ^ 256"
    using sq_step_down [OF _ l7, of "158757031966477878 / 10 ^ 51"] by (simp add: power_mult [symmetric])
  have "1 / 10 ^ 40 \<le> (158757031966477878 / 10 ^ 51) * ((595787821249401065 / 10 ^ 22) * ((878562991916953674 / 10 ^ 19) * ((296405632860941709 / 10 ^ 18) * (544431476736000000 / 10 ^ 18 :: real))))"
    by simp
  also have "\<dots> \<le> ?q ^ 256 * (?q ^ 32 * (?q ^ 8 * (?q ^ 4 * ?q ^ 2)))"
    by (intro mult_mono l8 l5 l3 l2 l1 mult_nonneg_nonneg) simp_all
  also have "\<dots> = ?q ^ 302"
    by (simp only: power_add [symmetric]) simp
  finally show ?thesis .
qed

lemma nr_its_value:
  "10 * ln (1 / 10000) / ln (11529 / 15625 :: real) = 40 * ln 10 / (- ln (11529 / 15625))"
proof -
  have "ln (1 / 10000 :: real) = - ln (10 ^ 4)"
    by (simp add: ln_div)
  also have "\<dots> = - (4 * ln 10)"
    by (simp only: ln_realpow)
  finally show ?thesis
    by simp
qed

lemma nr_its_bounds:
  "302 \<le> 40 * ln 10 / (- ln (11529 / 15625 :: real))"
  "40 * ln 10 / (- ln (11529 / 15625 :: real)) < 303"
proof -
  let ?q = "11529 / 15625 :: real"
  have neg: "0 < - ln ?q"
    by simp
  have p: "ln ((10::real) ^ 40) = 40 * ln 10"
    by (simp only: ln_realpow)
  have "ln (?q ^ 303) < ln (1 / 10 ^ 40)"
    using q_pow_upper by (subst ln_less_cancel_iff) simp_all
  then have "303 * ln ?q < - (40 * ln 10)"
    using p by (simp add: ln_realpow ln_div)
  then have u: "40 * ln 10 < 303 * (- ln ?q)"
    by linarith
  have "ln (1 / 10 ^ 40) \<le> ln (?q ^ 302)"
    using q_pow_lower by (subst ln_le_cancel_iff) simp_all
  then have "- (40 * ln 10) \<le> 302 * ln ?q"
    using p by (simp add: ln_realpow ln_div)
  then have l: "302 * (- ln ?q) \<le> 40 * ln 10"
    by linarith
  have g1: "0 < b \<Longrightarrow> 302 * b \<le> a \<Longrightarrow> 302 \<le> a / b" for a b :: real
    by (simp add: pos_le_divide_eq)
  have g2: "0 < b \<Longrightarrow> a < 303 * b \<Longrightarrow> a / b < 303" for a b :: real
    by (simp add: pos_divide_less_eq)
  show "302 \<le> 40 * ln 10 / (- ln ?q)"
    by (rule g1 [OF neg l])
  show "40 * ln 10 / (- ln ?q) < 303"
    by (rule g2 [OF neg u])
qed

lemma nr_its_large:
  assumes "6 < C"
  shows "nr_its C = 40 * ln 10 / (- ln (11529 / 15625))"
proof -
  have "nr_its C = 10 * ln (1 / 10000) / ln (11529 / 15625)"
    using assms
    by (simp add: nr_its_def subset_size_def targeted_success_chance_def
        estimated_outlier_ratio_def power_divide)
  then show ?thesis
    by (simp only: nr_its_value)
qed

lemma int_of_float_nr_its:
  assumes "6 < C"
  shows "int_of_float (nr_its C) = 302"
proof -
  have "\<lfloor>nr_its C\<rfloor> = 302"
    unfolding nr_its_large [OF assms] using nr_its_bounds by (intro floor_unique) simp_all
  moreover have "0 \<le> nr_its C"
    unfolding nr_its_large [OF assms] using nr_its_bounds(1) by linarith
  ultimately show ?thesis
    by (simp add: int_of_float_def)
qed

lemma ransac_range_large: "6 < C \<Longrightarrow> ransac_range C = [0..<302]"
  by (simp add: ransac_range_def int_of_float_nr_its)

lemma ransac_range_small: "C \<le> 6 \<Longrightarrow> ransac_range C = [0]"
  by (simp add: ransac_range_def nr_its_def subset_size_def int_of_float_def)

section \<open>Regularized systems of degenerate points\<close>

lemma outer_zero: "outer 0 0 = (0, 0, 0)"
  by (simp add: zero_vec3_def)

lemma mat_add_zero_left: "mat_add (0, 0, 0) M = M"
  by (cases M) simp

lemma mat_add_zero_right: "mat_add M (0, 0, 0) = M"
  by (cases M) simp

lemma gram_Cons: "gram (a # A) = mat_add (outer a a) (gram A)"
  by (simp add: gram_def)

lemma gram_Nil: "gram [] = (0, 0, 0)"
  by (simp add: gram_def)

lemma gram_filter: "gram (filter (\<lambda>a. a \<noteq> 0) A) = gram A"
  by (induction A) (simp_all add: gram_Cons outer_zero mat_add_zero_left)

lemma short_list_cases:
  assumes "length xs \<le> 2"
  obtains "xs = []" | a where "xs = [a]" | a b where "xs = [a, b]"
proof (cases xs)
  case Nil
  then show ?thesis using that(1) by simp
next
  case (Cons a ys)
  show ?thesis
  proof (cases ys)
    case Nil
    then show ?thesis using Cons that(2) by simp
  next
    case (Cons b zs)
    then have "zs = []" using assms \<open>xs = a # ys\<close> by simp
    then show ?thesis using Cons \<open>xs = a # ys\<close> that(3) by simp
  qed
qed

lemma gram_two_rows:
  assumes "length (filter (\<lambda>a. a \<noteq> 0) A) \<le> 2"
  shows "\<exists>a b. gram A = mat_add (outer a a) (outer b b)"
proof -
  let ?B = "filter (\<lambda>a. a \<noteq> 0) A"
  from assms show ?thesis
  proof (cases ?B rule: short_list_cases)
    case 1
    have "gram A = gram ?B"
      by (rule gram_filter [symmetric])
    also have "\<dots> = (0, 0, 0)"
      unfolding 1 by (rule gram_Nil)
    also have "\<dots> = mat_add (outer 0 0) (outer 0 0)"
      unfolding outer_zero by simp
    finally show ?thesis by blast
  next
    case (2 a)
    have "gram A = gram ?B"
      by (rule gram_filter [symmetric])
    also have "\<dots> = mat_add (outer a a) (0, 0, 0)"
      unfolding 2 by (simp only: gram_Cons gram_Nil)
    also have "\<dots> = mat_add (outer a a) (outer 0 0)"
      unfolding outer_zero by simp
    finally show ?thesis by blast
  next
    case (3 a b)
    have "gram A = gram ?B"
      by (rule gram_filter [symmetric])
    also have "\<dots> = mat_add (outer a a) (mat_add (outer b b) (0, 0, 0))"
      unfolding 3 by (simp only: gram_Cons gram_Nil)
    also have "\<dots> = mat_add (outer a a) (outer b b)"
      by (simp only: mat_add_zero_right)
    finally show ?thesis by blast
  qed
qed

lemma det3_two_rows:
  "det3 (mat_add (mat_add (outer a a) (outer b b)) (mat_scale c eye3))
     = c ^ 3 + c\<^sup>2 * (inner_product a a + inner_product b b)
       + c * inner_product (cross_product a b) (cross_product a b)"
  by (cases a; cases b) (simp add: eye3_def power2_eq_square power3_eq_cube algebra_simps)

lemma det3_regularized:
  assumes "length (filter (\<lambda>a. a \<noteq> 0) A) \<le> 2"
  shows "10 ^ 24 \<le> det3 (mat_add (gram A) eye)"
proof -
  obtain a b where g: "gram A = mat_add (outer a a) (outer b b)"
    using gram_two_rows [OF assms] by blast
  have e: "eye = mat_scale (10 ^ 8) eye3"
    by (simp add: eye_def)
  have "0 \<le> inner_product a a + inner_product b b"
    by (simp add: inner_product_self_nonneg)
  then have "0 \<le> (10 ^ 8)\<^sup>2 * (inner_product a a + inner_product b b)"
    by simp
  moreover have "0 \<le> 10 ^ 8 * inner_product (cross_product a b) (cross_product a b)"
    by (simp add: inner_product_self_nonneg)
  moreover have "((10::real) ^ 8) ^ 3 = 10 ^ 24"
    by simp
  ultimately show ?thesis
    unfolding g e det3_two_rows by linarith
qed

lemma count_le_sum_list:
  assumes "\<And>x. x \<in> set xs \<Longrightarrow> 0 \<le> f x" and "\<And>x. x \<in> set xs \<Longrightarrow> P x \<Longrightarrow> 1 \<le> f x"
  shows "real (length (filter P xs)) \<le> sum_list (map f xs)"
  using assms
proof (induction xs)
  case Nil
  then show ?case by simp
next
  case (Cons x xs)
  have "real (length (filter P xs)) \<le> sum_list (map f xs)"
    using Cons by simp
  moreover have "0 \<le> f x" and "P x \<Longrightarrow> 1 \<le> f x"
    using Cons.prems by simp_all
  ultimately show ?case
    by (cases "P x") auto
qed

lemma valid_mask_cases: "valid_mask v = 0 \<or> valid_mask v = 1"
  by (simp add: valid_mask_def shadowing_mask_def occlusion_mask_def)

lemma gray_light_intensities_invalid: "valid_mask v = 0 \<Longrightarrow> gray_light_intensities v = 0"
  by (simp add: gray_light_intensities_def scale3_zero_left)

lemma nonzero_rows_of_subset:
  assumes "sum_list (map valid_mask vs) \<le> 2"
  shows "length (filter (\<lambda>a. a \<noteq> 0) (map gray_light_intensities vs)) \<le> 2"
proof -
  have "real (length (filter (\<lambda>v. gray_light_intensities v \<noteq> 0) vs))
          \<le> sum_list (map valid_mask vs)"
  proof (rule count_le_sum_list)
    fix v
    show "0 \<le> valid_mask v"
      using valid_mask_cases [of v] by auto
    assume "gray_light_intensities v \<noteq> 0"
    then show "1 \<le> valid_mask v"
      using valid_mask_cases [of v] gray_light_intensities_invalid [of v] by auto
  qed
  then have "length (filter (\<lambda>v. gray_light_intensities v \<noteq> 0) vs) \<le> 2"
    using assms by linarith
  then show ?thesis
    by (simp add: filter_map comp_def)
qed

lemma nonzero_rows_of_inliers:
  assumes "list_all (\<lambda>b. b = 0 \<or> b = 1) best"
    and "sum_list (map2 (\<lambda>v b. valid_mask v * b) views best) \<le> 2"
  shows "length (filter (\<lambda>a. a \<noteq> 0)
           (map2 (\<lambda>v b. scale3 b (gray_light_intensities v)) views best)) \<le> 2"
proof -
  let ?P = "\<lambda>(v, b). scale3 b (gray_light_intensities v) \<noteq> 0"
  let ?f = "\<lambda>(v, b). valid_mask v * b"
  have "real (length (filter ?P (zip views best))) \<le> sum_list (map ?f (zip views best))"
  proof (rule count_le_sum_list)
    fix x
    assume x: "x \<in> set (zip views best)"
    obtain v b where vb: "x = (v, b)"
      by (cases x)
    have b: "b = 0 \<or> b = 1"
      using assms(1) x vb by (auto simp: list_all_iff dest: set_zip_rightD)
    show "0 \<le> ?f x"
      using vb b valid_mask_cases [of v] by auto
    assume "?P x"
    then have "b \<noteq> 0" and "valid_mask v \<noteq> 0"
      using vb gray_light_intensities_invalid [of v]
      by (auto simp: scale3_zero_left scale3_zero_right)
    then show "1 \<le> ?f x"
      using vb b valid_mask_cases [of v] by auto
  qed
  then have "length (filter ?P (zip views best)) \<le> 2"
    using assms(2) by linarith
  then show ?thesis
    by (simp add: filter_map comp_def case_prod_unfold)
qed

lemma regularized_solve_succeeds:
  assumes "det3 (mat_add (gram A) R) \<noteq> 0"
  shows "\<exists>x. regularized_solve R A b = Inr x"
  using assms by (simp add: regularized_solve_def inverse3_def)

lemma mat_scale_one: "mat_scale 1 M = M"
  by (cases M rule: prod_cases3) (metis mat_scale.simps mult_1 scale3.elims)

lemma degenerate_subset_solve:
  assumes "sum_list (map valid_mask vs) \<le> 2"
  shows "mat_scale (invalids_of (map valid_mask vs)) eye = eye"
    and "10 ^ 24 \<le> det3 (mat_add (gram (map gray_light_intensities vs)) eye)"
    and "\<exists>x. regularized_solve (mat_scale (invalids_of (map valid_mask vs)) eye)
            (map gray_light_intensities vs) b = Inr x"
proof -
  show e: "mat_scale (invalids_of (map valid_mask vs)) eye = eye"
    using assms by (simp add: invalids_of_def mat_scale_one)
  show d: "10 ^ 24 \<le> det3 (mat_add (gram (map gray_light_intensities vs)) eye)"
    using nonzero_rows_of_subset [OF assms] by (rule det3_regularized)
  have "det3 (mat_add (gram (map gray_light_intensities vs)) eye) \<noteq> 0"
    using d by auto
  then show "\<exists>x. regularized_solve (mat_scale (invalids_of (map valid_mask vs)) eye)
            (map gray_light_intensities vs) b = Inr x"
    unfolding e by (rule regularized_solve_succeeds)
qed

lemma degenerate_iteration:
  assumes "index_select views idx = Inr vs" and "sum_list (map valid_mask vs) \<le> 2"
  shows "\<exists>st'. ransac_iteration views idx st = Inr st'"
  using assms(1) degenerate_subset_solve(3) [OF assms(2), of "map gray_observations vs"]
  by (auto simp: ransac_iteration_def)

lemma degenerate_refit_normal:
  assumes "list_all (\<lambda>b. b = 0 \<or> b = 1) best"
    and "sum_list (map2 (\<lambda>v b. valid_mask v * b) views best) \<le> 2"
  shows "inlier_invalids views best = 1"
    and "\<exists>n. refit_normal views best = Inr n"
proof -
  show i: "inlier_invalids views best = 1"
    using assms(2) by (simp add: inlier_invalids_def invalids_of_def)
  have "10 ^ 24 \<le> det3 (mat_add
          (gram (map2 (\<lambda>v b. scale3 b (gray_light_intensities v)) views best)) eye)"
    using nonzero_rows_of_inliers [OF assms] by (rule det3_regularized)
  then have "det3 (mat_add
          (gram (map2 (\<lambda>v b. scale3 b (gray_light_intensities v)) views best)) eye) \<noteq> 0"
    by auto
  then obtain x where "regularized_solve eye
       (map2 (\<lambda>v b. scale3 b (gray_light_intensities v)) views best)
       (map2 (\<lambda>v b. gray_observations v * b) views best) = Inr x"
    using regularized_solve_succeeds by blast
  then show "\<exists>n. refit_normal views best = Inr n"
    by (simp add: refit_normal_def i mat_scale_one)
qed

lemma sum_list_squares_nonneg: "0 \<le> sum_list (map (\<lambda>x. x * x) (xs::real list))"
  by (induction xs) simp_all

lemma degenerate_c_albedo:
  assumes "inlier_invalids views best = 1"
  shows "\<exists>a. c_albedo n views best c = Inr a"
proof -
  have "sum_list (map (\<lambda>x. x * x) (c_light_intensities n views best c)) + 1 \<noteq> 0"
    using sum_list_squares_nonneg [of "c_light_intensities n views best c"] by linarith
  then show ?thesis
    by (simp add: c_albedo_def Let_def assms inverse1_def)
qed

lemma degenerate_refit:
  assumes "list_all (\<lambda>b. b = 0 \<or> b = 1) best"
    and "sum_list (map2 (\<lambda>v b. valid_mask v * b) views best) \<le> 2"
  shows "\<exists>r. refit views best = Inr r"
proof -
  obtain n where n: "refit_normal views best = Inr n"
    using degenerate_refit_normal(2) [OF assms] by blast
  have i: "inlier_invalids views best = 1"
    by (rule degenerate_refit_normal(1) [OF assms])
  obtain a0 a1 a2 where "c_albedo n views best 0 = Inr a0" "c_albedo n views best 1 = Inr a1"
    "c_albedo n views best 2 = Inr a2"
    using degenerate_c_albedo [OF i] by metis
  then show ?thesis
    using n by (simp add: refit_def)
qed

lemma sum_list_distinct_indices:
  assumes "distinct idx" and "list_all (\<lambda>i. i < length xs) idx" and "\<And>x. 0 \<le> f x"
  shows "sum_list (map (\<lambda>i. f (xs ! i)) idx) \<le> sum_list (map f (xs::'a list) :: real list)"
proof -
  have "sum_list (map (\<lambda>i. f (xs ! i)) idx) = sum (\<lambda>i. f (xs ! i)) (set idx)"
    using assms(1) by (rule sum_list_distinct_conv_sum_set)
  also have "\<dots> \<le> sum (\<lambda>i. f (xs ! i)) {0..<length xs}"
    using assms(2,3) by (intro sum_mono2) (auto simp: list_all_iff)
  also have "\<dots> = sum_list (map f xs)"
    by (simp add: sum_list_sum_nth)
  finally show ?thesis .
qed

lemma index_select_valid:
  assumes "index_select views idx = Inr vs" and "distinct idx"
  shows "sum_list (map valid_mask vs) \<le> sum_list (map valid_mask views)"
proof -
  have r: "list_all (\<lambda>i. i < length views) idx" and vs: "vs = map (\<lambda>i. views ! i) idx"
    using assms(1) by (auto simp: index_select_def split: if_splits)
  have "0 \<le> valid_mask x" for x
    using valid_mask_cases [of x] by auto
  then have "sum_list (map (\<lambda>i. valid_mask (views ! i)) idx) \<le> sum_list (map valid_mask views)"
    using assms(2) r by (intro sum_list_distinct_indices) simp_all
  then show ?thesis
    by (simp add: vs comp_def)
qed

lemma inliers_of_binary: "list_all (\<lambda>b. b = 0 \<or> b = 1) (inliers_of views sol)"
  using valid_mask_cases by (auto simp: inliers_of_def list_all_iff)

lemma keep_best_binary:
  assumes "length (best_inliers st) = length views"
    and "list_all (\<lambda>b. b = 0 \<or> b = 1) (best_inliers st)"
  shows "length (best_inliers (keep_best (inliers_of views sol) st)) = length views
    \<and> list_all (\<lambda>b. b = 0 \<or> b = 1) (best_inliers (keep_best (inliers_of views sol) st))"
  using assms inliers_of_binary [of views sol]
  by (simp add: keep_best_cases length_inliers_of)

lemma ransac_iteration_binary:
  assumes "ransac_iteration views idx st = Inr st'"
    and "length (best_inliers st) = length views"
    and "list_all (\<lambda>b. b = 0 \<or> b = 1) (best_inliers st)"
  shows "length (best_inliers st') = length views
    \<and> list_all (\<lambda>b. b = 0 \<or> b = 1) (best_inliers st')"
  using ransac_iteration_result [OF assms(1)] keep_best_binary [OF assms(2,3)] by auto

lemma degenerate_loop:
  assumes "sum_list (map valid_mask views) \<le> 2"
    and "list_all (\<lambda>idx. distinct idx \<and> list_all (\<lambda>i. i < length views) idx) subsets"
    and "length (best_inliers st) = length views"
    and "list_all (\<lambda>b. b = 0 \<or> b = 1) (best_inliers st)"
  shows "\<exists>st'. ransac_loop views subsets st = Inr st'
           \<and> length (best_inliers st') = length views
           \<and> list_all (\<lambda>b. b = 0 \<or> b = 1) (best_inliers st')"
  using assms(2-4)
proof (induction subsets arbitrary: st)
  case Nil
  then show ?case by simp
next
  case (Cons idx subsets)
  have d: "distinct idx" and r: "list_all (\<lambda>i. i < length views) idx"
    using Cons.prems(1) by simp_all
  have s: "index_select views idx = Inr (map (\<lambda>i. views ! i) idx)"
    using r by (simp add: index_select_def)
  have "sum_list (map valid_mask (map (\<lambda>i. views ! i) idx)) \<le> 2"
    using index_select_valid [OF s d] assms(1) by linarith
  then obtain st1 where 1: "ransac_iteration views idx st = Inr st1"
    using degenerate_iteration [OF s] by blast
  have "length (best_inliers st1) = length views"
    and "list_all (\<lambda>b. b = 0 \<or> b = 1) (best_inliers st1)"
    using ransac_iteration_binary [OF 1 Cons.prems(2,3)] by simp_all
  then obtain st' where "ransac_loop views subsets st1 = Inr st'
           \<and> length (best_inliers st') = length views
           \<and> list_all (\<lambda>b. b = 0 \<or> b = 1) (best_inliers st')"
    using Cons.IH Cons.prems(1) by auto
  then show ?case
    using 1 by simp
qed

lemma sum_list_inlier_valid:
  assumes "length views = length best" and "list_all (\<lambda>b. b = 0 \<or> b = 1) best"
  shows "sum_list (map2 (\<lambda>v b. valid_mask v * b) views best) \<le> sum_list (map valid_mask views)"
  using assms
proof (induction views best rule: list_induct2)
  case Nil
  then show ?case by simp
next
  case (Cons v vs b bs)
  have "valid_mask v * b \<le> valid_mask v"
    using Cons.prems valid_mask_cases [of v] by auto
  then show ?case
    using Cons by simp
qed

lemma degenerate_point:
  assumes "sum_list (map valid_mask views) \<le> 2"
    and "list_all (\<lambda>idx. distinct idx \<and> list_all (\<lambda>i. i < length views) idx) subsets"
  shows "\<exists>r. closed_form_point views subsets = Inr r"
proof -
  have "length (best_inliers (initial_state (length views))) = length views"
    and "list_all (\<lambda>b. b = 0 \<or> b = 1) (best_inliers (initial_state (length views)))"
    by (simp_all add: initial_state_def list_all_iff)
  then obtain st where st: "ransac_loop views subsets (initial_state (length views)) = Inr st"
    and l: "length (best_inliers st) = length views"
    and b: "list_all (\<lambda>b. b = 0 \<or> b = 1) (best_inliers st)"
    using degenerate_loop [OF assms] by blast
  have "sum_list (map2 (\<lambda>v b. valid_mask v * b) views (best_inliers st)) \<le> 2"
    using sum_list_inlier_valid [OF l [symmetric] b] assms(1) by linarith
  then obtain r where "refit views (best_inliers st) = Inr r"
    using degenerate_refit [OF b] by blast
  then show ?thesis
    using st by (simp add: closed_form_point_def)
qed

text \<open>
  Over exact reals: when at most two views of a subset are valid, the system of the
  iteration is the Gram matrix plus \<open>10\<^sup>8\<close> on the diagonal, its determinant is at
  least \<open>10\<^sup>2\<^sup>4\<close>, and the iteration returns; when at most two valid views are among
  the winning inliers, the refit gets the same regularizer and returns; and a point with
  at most two valid views in all goes through the whole solver without a singular
  system, whatever subsets are drawn without replacement.  Whether the floats of the
  program stay finite is not a statement of this model: there a non-finite number times
  a zero mask is not zero.
\<close>

lemma degenerate_systems_are_regular:
  "(index_select views idx = Inr vs \<and> sum_list (map valid_mask vs) \<le> 2 \<longrightarrow>
      mat_scale (invalids_of (map valid_mask vs)) eye = mat_scale (10 ^ 8) eye3
      \<and> 10 ^ 24 \<le> det3 (mat_add (gram (map gray_light_intensities vs))
                         (mat_scale (invalids_of (map valid_mask vs)) eye))
      \<and> (\<exists>st'. ransac_iteration views idx st = Inr st'))
   \<and> (list_all (\<lambda>b. b = 0 \<or> b = 1) best
        \<and> sum_list (map2 (\<lambda>v b. valid_mask v * b) views best) \<le> 2 \<longrightarrow>
      mat_scale (inlier_invalids views best) eye = mat_scale (10 ^ 8) eye3
      \<and> (\<exists>r. refit views best = Inr r))
   \<and> (sum_list (map valid_mask views) \<le> 2
        \<and> list_all (\<lambda>idx. distinct idx \<and> list_all (\<lambda>i. i < length views) idx) subsets \<longrightarrow>
      (\<exists>r. closed_form_point views subsets = Inr r))"
proof (intro conjI impI)
  assume a: "index_select views idx = Inr vs \<and> sum_list (map valid_mask vs) \<le> 2"
  then have s: "sum_list (map valid_mask vs) \<le> 2" by simp
  show e: "mat_scale (invalids_of (map valid_mask vs)) eye = mat_scale (10 ^ 8) eye3"
    using degenerate_subset_solve(1) [OF s] by (simp add: eye_def)
  show "10 ^ 24 \<le> det3 (mat_add (gram (map gray_light_intensities vs))
                         (mat_scale (invalids_of (map valid_mask vs)) eye))"
    using degenerate_subset_solve(1,2) [OF s] by simp
  show "\<exists>st'. ransac_iteration views idx st = Inr st'"
    using a degenerate_iteration by blast
next
  assume a: "list_all (\<lambda>b. b = 0 \<or> b = 1) best
        \<and> sum_list (map2 (\<lambda>v b. valid_mask v * b) views best) \<le> 2"
  show "mat_scale (inlier_invalids views best) eye = mat_scale (10 ^ 8) eye3"
    using a degenerate_refit_normal(1) [of best views] by (simp add: mat_scale_one eye_def)
  show "\<exists>r. refit views best = Inr r"
    using a degenerate_refit by blast
next
  assume "sum_list (map valid_mask views) \<le> 2
        \<and> list_all (\<lambda>idx. distinct idx \<and> list_all (\<lambda>i. i < length views) idx) subsets"
  then show "\<exists>r. closed_form_point views subsets = Inr r"
    using degenerate_point by blast
qed

section \<open>The albedo refit on three lights\<close>

lemma lit_from_gray:
  "valid_mask (lit_from d y) = 1"
  "gray_light_intensities (lit_from d y) = d"
  "gray_observations (lit_from d y) = y"
  "incident_light (lit_from d y) c = d"
  "channel (observation (lit_from d y)) c = y"
  by (cases d, simp add: lit_from_def valid_mask_def shadowing_mask_def occlusion_mask_def
      gray_light_intensities_def gray_observations_def incident_light_def)+

lemma three_lights_normal: "refit_normal three_lights [1, 1, 1] = Inr (Vec3 0 0 1)"
proof -
  have "regularized_solve (mat_scale 0 eye) [Vec3 1 0 0, Vec3 0 1 0, Vec3 0 0 1] [0, 0, 2]
          = Inr (Vec3 0 0 2)"
    by (simp add: regularized_solve_def gram_def eye_def eye3_def zero_vec3_def inverse3_def)
  moreover have "normalize3 (Vec3 0 0 2) = Vec3 0 0 1"
    by (simp add: normalize3_def norm3_def)
  ultimately show ?thesis
    by (simp add: refit_normal_def three_lights_def lit_from_gray inlier_invalids_def
        invalids_of_def)
qed

lemma three_lights_shading:
  "c_light_intensities (Vec3 0 0 1) three_lights [1, 1, 1] c = [0, 0, 1]"
  "c_observations three_lights [1, 1, 1] c = [0, 0, 2]"
  "inlier_invalids three_lights [1, 1, 1] = 0"
  by (simp_all add: c_light_intensities_def c_observations_def three_lights_def lit_from_gray
      inlier_invalids_def invalids_of_def)

lemma three_lights_albedo: "c_albedo (Vec3 0 0 1) three_lights [1, 1, 1] c = Inr 2"
  by (simp add: c_albedo_def three_lights_shading inverse1_def)

lemma three_lights_refit:
  "refit three_lights [1, 1, 1]
     = Inr \<lparr>inlier_normals = Vec3 0 0 1, albedos = Vec3 (pi * 2) (pi * 2) (pi * 2),
            inliers = [1, 1, 1], residuals = [Vec3 0 0 0, Vec3 0 0 0, Vec3 0 0 0]\<rparr>"
  by (simp add: refit_def three_lights_normal three_lights_albedo c_residuals_def
      three_lights_shading)

text \<open>
  C7, as the claim states it, fails: with three valid inlier views nothing is added to
  the system.  The fitted coefficient is 2, which solves \<open>1 \<cdot> a = 2\<close> and not
  \<open>(1 + 1) \<cdot> a = 2\<close>.
\<close>

theorem albedo_refit_counterexample:
  "refit three_lights [1, 1, 1]
     = Inr \<lparr>inlier_normals = Vec3 0 0 1, albedos = Vec3 (pi * 2) (pi * 2) (pi * 2),
            inliers = [1, 1, 1], residuals = [Vec3 0 0 0, Vec3 0 0 0, Vec3 0 0 0]\<rparr>
   \<and> sum_list (map (\<lambda>x. x * x) (c_light_intensities (Vec3 0 0 1) three_lights [1, 1, 1] 0)) = 1
   \<and> sum_list (map2 (\<lambda>x y. x * y) (c_light_intensities (Vec3 0 0 1) three_lights [1, 1, 1] 0)
        (c_observations three_lights [1, 1, 1] 0)) = 2
   \<and> (1 + 1) * (2::real) \<noteq> 2"
  using three_lights_refit by (simp add: three_lights_shading)

theorem albedo_refit_witness:
  "refit three_lights [1, 1, 1]
     = Inr \<lparr>inlier_normals = Vec3 0 0 1, albedos = Vec3 (pi * 2) (pi * 2) (pi * 2),
            inliers = [1, 1, 1], residuals = [Vec3 0 0 0, Vec3 0 0 0, Vec3 0 0 0]\<rparr>
   \<and> (0::nat) < 3
   \<and> (\<exists>a. (1 + 0) * a = (2::real) \<and> pi * 2 = pi * a \<and> [0, 0, 0] = [0 * a - 0, 0 * a - 0, 1 * a - 2])"
proof -
  have c: "(0::nat) < 3"
    by simp
  show ?thesis
    using three_lights_refit albedo_refit [OF three_lights_refit c]
    by (simp add: three_lights_shading three_lights_def lit_from_gray)
qed

section \<open>One iteration\<close>

lemma first_iteration_inliers:
  assumes "ransac_loop views [idx] (initial_state (length views)) = Inr st"
  shows "\<exists>vs solution.
           index_select views idx = Inr vs
         \<and> regularized_solve (mat_scale (invalids_of (map valid_mask vs)) eye)
              (map gray_light_intensities vs) (map gray_observations vs) = Inr solution
         \<and> best_inliers st = inliers_of views solution"
proof -
  obtain vs solution where vs: "index_select views idx = Inr vs"
    and s: "regularized_solve (mat_scale (invalids_of (map valid_mask vs)) eye)
              (map gray_light_intensities vs) (map gray_observations vs) = Inr solution"
    and st: "st = keep_best (inliers_of views solution) (initial_state (length views))"
    using assms by (auto simp: ransac_iteration_def split: sum.splits)
  have "0 \<le> sum_list (inliers_of views solution)"
    using inliers_of_binary [of views solution]
    by (intro sum_list_nonneg) (auto simp: list_all_iff)
  then have "best_inliers st = inliers_of views solution"
    unfolding st by (simp add: keep_best_cases length_inliers_of initial_state_def)
  then show ?thesis
    using vs s by blast
qed

text \<open>
  C1, amended.  With more than six views the loop ranges over 302 iterations, which is
  the floor of the formula; with at most six views over one.  After that single
  iteration the inlier mask is, for the solution of the regularized system of the drawn
  subset, the validity mask restricted to the views whose residual is below the
  threshold in absolute value: a subset of the valid views, not all of them.
\<close>

theorem ransac_iteration_count:
  "(6 < C \<longrightarrow>
      length (ransac_range C) = 302
      \<and> \<lfloor>10 * ln (1 - targeted_success_chance)
           / ln (1 - (1 - estimated_outlier_ratio) ^ subset_size C)\<rfloor> = 302)
   \<and> (C \<le> 6 \<longrightarrow> length (ransac_range C) = 1)
   \<and> (ransac_loop views [idx] (initial_state (length views)) = Inr st \<longrightarrow>
        (\<exists>vs solution.
           index_select views idx = Inr vs
         \<and> regularized_solve (mat_scale (invalids_of (map valid_mask vs)) eye)
              (map gray_light_intensities vs) (map gray_observations vs) = Inr solution
         \<and> best_inliers st
           = map (\<lambda>v. of_bool (\<bar>inner_product (gray_light_intensities v) solution
                                  - gray_observations v\<bar> < threshold) * valid_mask v) views))"
proof (intro conjI impI)
  assume c: "6 < C"
  show "length (ransac_range C) = 302"
    using c by (simp add: ransac_range_large)
  have "nr_its C = 10 * ln (1 - targeted_success_chance)
           / ln (1 - (1 - estimated_outlier_ratio) ^ subset_size C)"
    using c by (simp add: nr_its_def subset_size_def)
  moreover have "\<lfloor>nr_its C\<rfloor> = 302"
    unfolding nr_its_large [OF c] using nr_its_bounds by (intro floor_unique) simp_all
  ultimately show "\<lfloor>10 * ln (1 - targeted_success_chance)
           / ln (1 - (1 - estimated_outlier_ratio) ^ subset_size C)\<rfloor> = 302"
    by simp
next
  assume "C \<le> 6"
  then show "length (ransac_range C) = 1"
    by (simp add: ransac_range_small)
next
  assume "ransac_loop views [idx] (initial_state (length views)) = Inr st"
  then show "\<exists>vs solution.
           index_select views idx = Inr vs
         \<and> regularized_solve (mat_scale (invalids_of (map valid_mask vs)) eye)
              (map gray_light_intensities vs) (map gray_observations vs) = Inr solution
         \<and> best_inliers st
           = map (\<lambda>v. of_bool (\<bar>inner_product (gray_light_intensities v) solution
                                  - gray_observations v\<bar> < threshold) * valid_mask v) views"
    using first_iteration_inliers unfolding inliers_of_def by blast
qed

lemma bright_view_loop:
  "ransac_loop [bright_view] [[0]] (initial_state (length [bright_view]))
     = Inr \<lparr>best_inlier_counts = 0, best_inliers = [0]\<rparr>"
  using bright_view_iteration by simp

theorem ransac_iteration_count_witness:
  "(6::nat) < 7 \<and> length (ransac_range 7) = 302
   \<and> (1::nat) \<le> 6 \<and> length (ransac_range 1) = 1
   \<and> ransac_loop [bright_view] [[0]] (initial_state (length [bright_view]))
       = Inr \<lparr>best_inlier_counts = 0, best_inliers = [0]\<rparr>
   \<and> (\<exists>vs solution.
           index_select [bright_view] [0] = Inr vs
         \<and> regularized_solve (mat_scale (invalids_of (map valid_mask vs)) eye)
              (map gray_light_intensities vs) (map gray_observations vs) = Inr solution
         \<and> best_inliers \<lparr>best_inlier_counts = 0, best_inliers = [0]\<rparr>
           = map (\<lambda>v. of_bool (\<bar>inner_product (gray_light_intensities v) solution
                                  - gray_observations v\<bar> < threshold) * valid_mask v)
               [bright_view])"
proof -
  have a: "length (ransac_range 7) = 302"
    using ransac_iteration_count [of 7 "[bright_view]" "[0]"
      "\<lparr>best_inlier_counts = 0, best_inliers = [0]\<rparr>"] by simp
  have b: "length (ransac_range 1) = 1"
    using ransac_iteration_count [of 1 "[bright_view]" "[0]"
      "\<lparr>best_inlier_counts = 0, best_inliers = [0]\<rparr>"] by simp
  have c: "\<exists>vs solution.
           index_select [bright_view] [0] = Inr vs
         \<and> regularized_solve (mat_scale (invalids_of (map valid_mask vs)) eye)
              (map gray_light_intensities vs) (map gray_observations vs) = Inr solution
         \<and> best_inliers \<lparr>best_inlier_counts = 0, best_inliers = [0]\<rparr>
           = map (\<lambda>v. of_bool (\<bar>inner_product (gray_light_intensities v) solution
                                  - gray_observations v\<bar> < threshold) * valid_mask v)
               [bright_view]"
    using ransac_iteration_count [of 1 "[bright_view]" "[0]"
      "\<lparr>best_inlier_counts = 0, best_inliers = [0]\<rparr>"] bright_view_loop by blast
  show ?thesis
    using a b c bright_view_loop by simp
qed

lemma bright_view_refit:
  "refit [bright_view] [0]
     = Inr \<lparr>inlier_normals = 0, albedos = Vec3 0 0 0, inliers = [0], residuals = [Vec3 0 0 0]\<rparr>"
proof -
  have "regularized_solve (mat_scale 1 eye) [Vec3 0 0 0] [0] = Inr (Vec3 0 0 0)"
    by (simp add: regularized_solve_def gram_def eye_def eye3_def zero_vec3_def inverse3_def)
  then have n: "refit_normal [bright_view] [0] = Inr 0"
    by (simp add: refit_normal_def inlier_invalids_def invalids_of_def bright_view_gray
        normalize3_def norm3_def zero_vec3_def)
  have a: "c_albedo 0 [bright_view] [0] c = Inr 0" for c
    by (simp add: c_albedo_def c_light_intensities_def c_observations_def inlier_invalids_def
        invalids_of_def inverse1_def)
  show ?thesis
    by (simp add: refit_def n a c_residuals_def c_light_intensities_def c_observations_def)
qed

text \<open>
  C1, as the claim states it, fails in its second half: one view, one iteration, the
  view is valid and is not an inlier.
\<close>

theorem single_iteration_inliers_counterexample:
  "subset_size 1 = 1
   \<and> length (ransac_range 1) = 1
   \<and> closed_form_lambertian_solution (- 1) (\<lambda>iteration. [0]) [[[bright_view]]]
       = Inr [\<lparr>inlier_normals = 0, albedos = Vec3 0 0 0, inliers = [0],
               residuals = [Vec3 0 0 0]\<rparr>]
   \<and> map valid_mask [bright_view] = [1]"
proof -
  have "collect_views (- 1) [[[bright_view]]] = Inr [[bright_view]]"
    by (simp add: collect_views_def mark_out_of_bounds_def bright_view_def)
  moreover have "closed_form_point [bright_view] [[0]]
      = Inr \<lparr>inlier_normals = 0, albedos = Vec3 0 0 0, inliers = [0],
             residuals = [Vec3 0 0 0]\<rparr>"
    using bright_view_loop by (simp add: closed_form_point_def bright_view_refit)
  ultimately show ?thesis
    by (simp add: closed_form_lambertian_solution_def shape_def ransac_range_small
        subset_size_def bright_view_gray)
qed

end
